theory Spec2Isabelle
  imports Complex_Main "HOL-Library.Sublist"
begin

section \<open>JavaScript values\<close>

text \<open>
  The server is the class \<open>StrapiMCPServer\<close> of \<open>index.js\<close> (version 1.1.0, the copy
  that has \<open>generateSlug\<close> and the token expiry). A JavaScript string is a sequence of
  UTF-16 code units; a code unit is modelled by its number. \<open>js\<close> embeds an ASCII literal
  of the source.
\<close>

type_synonym jsstring = "nat list"

definition js :: "string \<Rightarrow> jsstring" where
  "js s = map of_char s"

text \<open>
  Tool arguments and backend responses are JSON values, extended by \<open>undefined\<close> (what
  reading an absent property gives). An object is the list of its own properties.
\<close>

datatype json =
    JUndefined
  | JNull
  | JBool bool
  | JNum real
  | JStr jsstring
  | JArr "json list"
  | JObj "(jsstring \<times> json) list"

text \<open>\<open>ToBoolean\<close>: the values that are falsy are \<open>undefined\<close>, \<open>null\<close>, \<open>false\<close>, \<open>0\<close> and the
  empty string (a JSON number is never NaN); arrays and objects, also empty, are truthy.\<close>

fun truthy :: "json \<Rightarrow> bool" where
  "truthy JUndefined = False"
| "truthy JNull = False"
| "truthy (JBool b) = b"
| "truthy (JNum n) = (n \<noteq> 0)"
| "truthy (JStr s) = (s \<noteq> [])"
| "truthy (JArr xs) = True"
| "truthy (JObj kvs) = True"

section \<open>Slugs\<close>

text \<open>
  The character class \<open>\s\<close> of a regular expression and the characters removed by
  \<open>String.prototype.trim\<close> are the same set: the white space and line terminator code
  points of ECMAScript.
\<close>

definition isWhiteSpace :: "nat \<Rightarrow> bool" where
  "isWhiteSpace c \<longleftrightarrow>
     c \<in> set [9, 10, 11, 12, 13, 32, 160, 5760,
               8192, 8193, 8194, 8195, 8196, 8197, 8198, 8199, 8200, 8201, 8202,
               8232, 8233, 8239, 8287, 12288, 65279]"

definition isHyphen :: "nat \<Rightarrow> bool" where
  "isHyphen c \<longleftrightarrow> c = 45"

text \<open>The ranges \<open>a-z\<close> and \<open>0-9\<close> of the class \<open>[^a-z0-9\s-]\<close>.\<close>

definition isAlnum :: "nat \<Rightarrow> bool" where
  "isAlnum c \<longleftrightarrow> (97 \<le> c \<and> c \<le> 122) \<or> (48 \<le> c \<and> c \<le> 57)"

definition keepChar :: "nat \<Rightarrow> bool" where
  "keepChar c \<longleftrightarrow> isAlnum c \<or> isWhiteSpace c \<or> isHyphen c"

text \<open>
  \<open>s.replace(/X+/g, r)\<close> for a character class \<open>X\<close>: every maximal run of characters
  of the class is replaced by \<open>r\<close>.
\<close>

function replaceRuns :: "(nat \<Rightarrow> bool) \<Rightarrow> jsstring \<Rightarrow> jsstring \<Rightarrow> jsstring" where
  "replaceRuns P r [] = []"
| "replaceRuns P r (c # cs) =
     (if P c then r @ replaceRuns P r (dropWhile P cs) else c # replaceRuns P r cs)"
  by pat_completeness auto
termination
  by (relation "measure (\<lambda>(P, r, s). length s)")
     (auto simp: less_Suc_eq_le length_dropWhile_le)

definition trim :: "jsstring \<Rightarrow> jsstring" where
  "trim s = rev (dropWhile isWhiteSpace (rev (dropWhile isWhiteSpace s)))"

text \<open>\<open>s.replace(/^-+|-+$/g, '')\<close>: the leading and the trailing run of hyphens go.\<close>

definition stripHyphens :: "jsstring \<Rightarrow> jsstring" where
  "stripHyphens s = rev (dropWhile isHyphen (rev (dropWhile isHyphen s)))"

text \<open>
  \<open>generateSlug (title)\<close>. \<open>String.prototype.toLowerCase\<close> belongs to the engine, not to
  the program, and is a parameter: what is proved holds for every lower-casing function.
  The guard \<open>!title || typeof title !== 'string'\<close> returns the empty string for every
  value that is not a non-empty string.
\<close>

definition generateSlug :: "(jsstring \<Rightarrow> jsstring) \<Rightarrow> json \<Rightarrow> jsstring" where
  "generateSlug toLowerCase title =
     (case title of
        JStr t \<Rightarrow>
          if t = [] then []
          else stripHyphens
                 (replaceRuns isHyphen (js ''-'')
                   (replaceRuns isWhiteSpace (js ''-'')
                     (trim (filter keepChar (toLowerCase t)))))
      | _ \<Rightarrow> [])"

text \<open>The characters a slug may contain, as the claim lists them.\<close>

definition slugAlphabet :: jsstring where
  "slugAlphabet = js ''abcdefghijklmnopqrstuvwxyz0123456789-''"

text \<open>Lower-casing of the ASCII letters, for concrete instances: it agrees with
  \<open>toLowerCase\<close> on strings whose code units are all below 128.\<close>

definition asciiLowerCase :: "jsstring \<Rightarrow> jsstring" where
  "asciiLowerCase s = map (\<lambda>c. if 65 \<le> c \<and> c \<le> 90 then c + 32 else c) s"


fun isString :: "json \<Rightarrow> bool" where
  "isString (JStr s) = True"
| "isString _ = False"

section \<open>Errors and property access\<close>

text \<open>
  A thrown value is an error object with a message. The wording of the engine's own
  \<open>TypeError\<close> messages is not part of the program; the model gives them a message of
  the same shape.
\<close>

datatype js_error = TypeError jsstring | Error jsstring | AxiosError jsstring

fun message :: "js_error \<Rightarrow> jsstring" where
  "message (TypeError m) = m"
| "message (Error m) = m"
| "message (AxiosError m) = m"

definition bindE :: "js_error + 'a \<Rightarrow> ('a \<Rightarrow> js_error + 'b) \<Rightarrow> js_error + 'b" where
  "bindE m f = (case m of Inl e \<Rightarrow> Inl e | Inr v \<Rightarrow> f v)"

definition lookup :: "(jsstring \<times> json) list \<Rightarrow> string \<Rightarrow> json" where
  "lookup kvs k = (case map_of kvs (js k) of None \<Rightarrow> JUndefined | Some v \<Rightarrow> v)"

text \<open>
  \<open>v.k\<close> for the property names the program reads: reading a property of \<open>undefined\<close>
  or \<open>null\<close> throws; an object gives its own property or \<open>undefined\<close>; a string or an
  array has \<open>length\<close>; every other read gives \<open>undefined\<close>.
\<close>

fun getProp :: "json \<Rightarrow> string \<Rightarrow> js_error + json" where
  "getProp JUndefined k =
     Inl (TypeError (js ''Cannot read properties of undefined (reading '' @ js k @ js '')''))"
| "getProp JNull k =
     Inl (TypeError (js ''Cannot read properties of null (reading '' @ js k @ js '')''))"
| "getProp (JObj kvs) k = Inr (lookup kvs k)"
| "getProp (JStr s) k = Inr (if k = ''length'' then JNum (real (length s)) else JUndefined)"
| "getProp (JArr xs) k = Inr (if k = ''length'' then JNum (real (length xs)) else JUndefined)"
| "getProp (JBool b) k = Inr JUndefined"
| "getProp (JNum n) k = Inr JUndefined"

text \<open>A read from a value already known not to be \<open>undefined\<close> or \<open>null\<close>.\<close>

definition readProp :: "json \<Rightarrow> string \<Rightarrow> json" where
  "readProp v k = (case getProp v k of Inl e \<Rightarrow> JUndefined | Inr x \<Rightarrow> x)"

text \<open>\<open>a || b\<close>, and the default of a destructuring pattern \<open>{ k = d }\<close>.\<close>

definition js_or :: "json \<Rightarrow> json \<Rightarrow> json" where
  "js_or a b = (if truthy a then a else b)"

definition orDefault :: "json \<Rightarrow> json \<Rightarrow> json" where
  "orDefault v d = (if v = JUndefined then d else v)"

text \<open>\<open>data.k = v\<close> on an object: an existing property keeps its place, a new one is added
  last.\<close>

fun setProp :: "string \<Rightarrow> json \<Rightarrow> (jsstring \<times> json) list \<Rightarrow> (jsstring \<times> json) list" where
  "setProp k v [] = [(js k, v)]"
| "setProp k v ((k', v') # kvs) =
     (if k' = js k then (k', v) # kvs else (k', v') # setProp k v kvs)"

section \<open>Reading time\<close>

text \<open>\<open>s.split(/\s+/)\<close>: the pieces of \<open>s\<close> between the maximal runs of white space,
  the empty pieces before a leading and after a trailing run included.\<close>

function splitWhitespace :: "jsstring \<Rightarrow> jsstring list" where
  "splitWhitespace s =
     (let w = takeWhile (\<lambda>c. \<not> isWhiteSpace c) s;
          rest = dropWhile (\<lambda>c. \<not> isWhiteSpace c) s
      in if rest = [] then [w] else w # splitWhitespace (dropWhile isWhiteSpace rest))"
  by pat_completeness auto
termination
proof (relation "measure length")
  show "wf (measure length)" by simp
next
  fix s w rest :: jsstring
  assume rest: "rest = dropWhile (\<lambda>c. \<not> isWhiteSpace c) s" and ne: "rest \<noteq> []"
  from ne obtain c cs where cs: "rest = c # cs" by (cases rest) auto
  have "\<not> (\<lambda>c. \<not> isWhiteSpace c) (hd (dropWhile (\<lambda>c. \<not> isWhiteSpace c) s))"
    using ne [unfolded rest] by (rule hd_dropWhile)
  with cs have "isWhiteSpace c" by (simp add: rest [symmetric])
  with cs have "length (dropWhile isWhiteSpace rest) \<le> length cs"
    by (simp add: length_dropWhile_le)
  also have "\<dots> < length rest" using cs by simp
  also have "\<dots> \<le> length s" unfolding rest by (rule length_dropWhile_le)
  finally show "(dropWhile isWhiteSpace rest, s) \<in> measure length" by simp
qed

text \<open>\<open>Math.ceil(wordCount / 200)\<close>. The quotient of a string length by 200 is far
  from the range where a double rounds to a neighbouring integer, so the ceiling is the
  one of the exact quotient.\<close>

definition readingTime :: "nat \<Rightarrow> nat" where
  "readingTime wordCount = (wordCount + 199) div 200"

text \<open>\<open>content.split(/\s+/).length\<close> for an arbitrary value \<open>content\<close>: only a string has
  the function \<open>split\<close>.\<close>

definition contentWordCount :: "json \<Rightarrow> js_error + nat" where
  "contentWordCount content =
     (case content of
        JStr c \<Rightarrow> Inr (length (splitWhitespace c))
      | JUndefined \<Rightarrow> Inl (TypeError (js ''Cannot read properties of undefined (reading split)''))
      | JNull \<Rightarrow> Inl (TypeError (js ''Cannot read properties of null (reading split)''))
      | _ \<Rightarrow> Inl (TypeError (js ''args.content.split is not a function'')))"

text \<open>The words of a string as the specification speaks of them, not taken from the
  code: the maximal runs of characters that are not white space.\<close>

function wordsOf :: "jsstring \<Rightarrow> jsstring list" where
  "wordsOf s =
     (case dropWhile isWhiteSpace s of
        [] \<Rightarrow> []
      | c # cs \<Rightarrow>
          takeWhile (\<lambda>c. \<not> isWhiteSpace c) (c # cs)
            # wordsOf (dropWhile (\<lambda>c. \<not> isWhiteSpace c) cs))"
  by pat_completeness auto
termination
proof (relation "measure length")
  show "wf (measure length)" by simp
next
  fix s cs :: jsstring and c :: nat
  assume d: "dropWhile isWhiteSpace s = c # cs"
  have "length (dropWhile (\<lambda>c. \<not> isWhiteSpace c) cs) \<le> length cs"
    by (rule length_dropWhile_le)
  also have "\<dots> < length (dropWhile isWhiteSpace s)" using d by simp
  also have "\<dots> \<le> length s" by (rule length_dropWhile_le)
  finally show "(dropWhile (\<lambda>c. \<not> isWhiteSpace c) cs, s) \<in> measure length" by simp
qed

definition specWordCount :: "jsstring \<Rightarrow> nat" where
  "specWordCount s = length (wordsOf s)"

declare splitWhitespace.simps [simp del] wordsOf.simps [simp del]

section \<open>The engine, the backend and the server object\<close>

text \<open>
  A template literal is kept as its pieces, the interpolated values not converted to
  strings: \<open>`${a}/x/${b}`\<close> is \<open>[Val a, Lit ''/x/'', Val b]\<close>.
\<close>

datatype piece = Lit jsstring | Val json

datatype http_method = GET | POST | PUT

text \<open>One call of \<open>axios.get (url, config)\<close>, \<open>axios.post (url, data, config)\<close> or
  \<open>axios.put (url, data, config)\<close>: \<open>verb\<close> says which of the three, \<open>headers\<close> and
  \<open>params\<close> are those of \<open>config\<close>.\<close>

record http_request =
  verb :: http_method
  url :: "piece list"
  body :: "json option"
  params :: "(jsstring \<times> json) list option"
  headers :: "(jsstring \<times> piece list) list option"

text \<open>
  What the program takes from its surroundings during one tool call: the built-in
  functions it does not define, the clock, and the backend. \<open>axios\<close> gives the body of
  the response (\<open>response.data\<close>) or the error it throws. \<open>toNumber\<close> is the conversion
  applied by \<open>>\<close> to an operand that is a string, an array or an object (\<open>None\<close> for NaN).
\<close>

record engine =
  toLowerCase :: "jsstring \<Rightarrow> jsstring"
  toNumber :: "json \<Rightarrow> real option"
  dateNow :: nat
  toISOString :: jsstring
  axios :: "http_request \<Rightarrow> js_error + json"

record server =
  strapiUrl :: jsstring
  apiToken :: "jsstring option"
  adminEmail :: "jsstring option"
  adminPassword :: "jsstring option"
  jwtToken :: json
  tokenExpiry :: "nat option"

text \<open>A variable of \<open>process.env\<close> is a string or \<open>undefined\<close>.\<close>

definition envValue :: "jsstring option \<Rightarrow> json" where
  "envValue v = (case v of None \<Rightarrow> JUndefined | Some s \<Rightarrow> JStr s)"

text \<open>The test the constructor applies to a variable, there printed as \<open>'present'\<close> or
  \<open>'not set'\<close>: its truthiness.\<close>

definition present :: "jsstring option \<Rightarrow> bool" where
  "present v \<longleftrightarrow> truthy (envValue v)"

text \<open>The constructor: \<open>Inl 1\<close> is \<open>process.exit(1)\<close>, \<open>Inr\<close> the constructed object.\<close>

definition constructor :: "(string \<Rightarrow> jsstring option) \<Rightarrow> nat + server" where
  "constructor env =
     (let this = \<lparr> strapiUrl =
                     (case env ''STRAPI_URL'' of
                        None \<Rightarrow> js ''http://localhost:1337''
                      | Some u \<Rightarrow> if u = [] then js ''http://localhost:1337'' else u),
                   apiToken = env ''STRAPI_API_TOKEN'',
                   adminEmail = env ''STRAPI_ADMIN_EMAIL'',
                   adminPassword = env ''STRAPI_ADMIN_PASSWORD'',
                   jwtToken = JNull,
                   tokenExpiry = None \<rparr>
      in if \<not> present (apiToken this)
              \<and> (\<not> present (adminEmail this) \<or> \<not> present (adminPassword this))
         then Inl 1
         else Inr this)"

text \<open>The last lines of the file: the process is over when the constructor exits, and
  serves requests with the constructed object otherwise.\<close>

datatype process = Exited nat | Serving server

definition main :: "(string \<Rightarrow> jsstring option) \<Rightarrow> process" where
  "main env = (case constructor env of Inl code \<Rightarrow> Exited code | Inr this \<Rightarrow> Serving this)"

section \<open>Authentication\<close>

definition loginRequest :: "server \<Rightarrow> http_request" where
  "loginRequest this =
     \<lparr> verb = POST,
       url = [Lit (strapiUrl this @ js ''/admin/login'')],
       body = Some (JObj [(js ''email'', envValue (adminEmail this)),
                          (js ''password'', envValue (adminPassword this))]),
       params = None,
       headers = None \<rparr>"

text \<open>\<open>this.jwtToken && this.tokenExpiry && now < this.tokenExpiry\<close>; an expiry is
  \<open>null\<close> or a number, and the number \<open>0\<close> is falsy.\<close>

definition tokenValid :: "server \<Rightarrow> nat \<Rightarrow> bool" where
  "tokenValid this now \<longleftrightarrow>
     truthy (jwtToken this)
     \<and> (case tokenExpiry this of None \<Rightarrow> False | Some e \<Rightarrow> e \<noteq> 0 \<and> now < e)"

text \<open>\<open>response.data.data.token\<close>, for the body \<open>response.data\<close> of the login
  response.\<close>

definition loginToken :: "json \<Rightarrow> js_error + json" where
  "loginToken data = bindE (getProp data ''data'') (\<lambda>d. getProp d ''token'')"

text \<open>\<open>authenticate ()\<close>: the returned token or the thrown error, the object after the
  call, and the login requests sent.\<close>

definition authenticate ::
  "engine \<Rightarrow> server \<Rightarrow> (js_error + json) \<times> server \<times> http_request list" where
  "authenticate E this =
     (if present (apiToken this) then (Inr (envValue (apiToken this)), this, [])
      else
        let now = dateNow E in
        if tokenValid this now then (Inr (jwtToken this), this, [])
        else
          (case axios E (loginRequest this) of
             Inl error \<Rightarrow> (Inl error, this, [loginRequest this])
           | Inr data \<Rightarrow>
               (case loginToken data of
                  Inl error \<Rightarrow> (Inl error, this, [loginRequest this])
                | Inr token \<Rightarrow>
                    (Inr token,
                     this\<lparr> jwtToken := token, tokenExpiry := Some (now + 25 * 60 * 1000) \<rparr>,
                     [loginRequest this]))))"

section \<open>Tool handlers\<close>

text \<open>A content item \<open>{ type: 'text', text: \<dots> }\<close>: the text is either
  \<open>JSON.stringify (v, null, 2)\<close> for a value \<open>v\<close>, or a string.\<close>

datatype content_item = JsonText json | PlainText jsstring

text \<open>\<open>isError\<close> is \<open>True\<close> where the source sets it and \<open>False\<close> where the property is
  absent.\<close>

record tool_result =
  content :: "content_item list"
  isError :: bool

definition textResult :: "json \<Rightarrow> tool_result" where
  "textResult v = \<lparr> content = [JsonText v], isError = False \<rparr>"

text \<open>What a handler does: it returns a result or throws, and has sent some requests.\<close>

type_synonym handled = "(js_error + tool_result) \<times> http_request list"

definition andThen :: "js_error + 'a \<Rightarrow> ('a \<Rightarrow> handled) \<Rightarrow> handled" where
  "andThen m f = (case m of Inl e \<Rightarrow> (Inl e, []) | Inr v \<Rightarrow> f v)"

definition send :: "engine \<Rightarrow> http_request \<Rightarrow> (json \<Rightarrow> js_error + tool_result) \<Rightarrow> handled" where
  "send E r k = (case axios E r of Inl e \<Rightarrow> (Inl e, [r]) | Inr data \<Rightarrow> (k data, [r]))"

definition respond :: "json \<Rightarrow> js_error + tool_result" where
  "respond data = Inr (textResult data)"

definition collection :: "server \<Rightarrow> string \<Rightarrow> jsstring" where
  "collection this uid = strapiUrl this @ js ''/content-manager/collection-types/'' @ js uid"

subsection \<open>Blog posts\<close>

definition createBlogPostData :: "engine \<Rightarrow> json \<Rightarrow> js_error + json" where
  "createBlogPostData E args =
     bindE (getProp args ''content'') (\<lambda>content.
     bindE (contentWordCount content) (\<lambda>wordCount.
       Inr (JObj
         [(js ''title'', readProp args ''title''),
          (js ''slug'', js_or (readProp args ''slug'')
                          (JStr (generateSlug (toLowerCase E) (readProp args ''title'')))),
          (js ''content'', content),
          (js ''excerpt'', readProp args ''description''),
          (js ''author'', readProp args ''author_id''),
          (js ''category'', readProp args ''category_id''),
          (js ''tags'', readProp args ''tag_ids''),
          (js ''reading_time'', JNum (real (readingTime wordCount))),
          (js ''published_date'', js_or (readProp args ''published_date'') (JStr (toISOString E))),
          (js ''publishedAt'', js_or (readProp args ''publishedAt'') JNull)])))"

definition createBlogPost :: "engine \<Rightarrow> server \<Rightarrow> (jsstring \<times> piece list) list \<Rightarrow> json \<Rightarrow> handled" where
  "createBlogPost E this hdrs args =
     andThen (createBlogPostData E args) (\<lambda>data.
       send E \<lparr> verb = POST,
                url = [Lit (collection this ''api::blog-post.blog-post'')],
                body = Some data, params = None, headers = Some hdrs \<rparr> respond)"

text \<open>The destructuring \<open>{ page = 1, pageSize = 25, summary = true } = args\<close> with the
  parameter default \<open>args = {}\<close>: page, page size and summary flag.\<close>

definition listArgs :: "json \<Rightarrow> js_error + json \<times> json \<times> json" where
  "listArgs args =
     (let a = orDefault args (JObj []) in
      bindE (getProp a ''page'') (\<lambda>page.
        Inr (orDefault page (JNum 1),
             orDefault (readProp a ''pageSize'') (JNum 25),
             orDefault (readProp a ''summary'') (JBool True))))"

definition listRequest ::
  "server \<Rightarrow> (jsstring \<times> piece list) list \<Rightarrow> string \<Rightarrow> json \<Rightarrow> json \<Rightarrow> http_request" where
  "listRequest this hdrs uid page pageSize =
     \<lparr> verb = GET,
       url = [Lit (collection this uid)],
       body = None,
       params = Some [(js ''page'', page), (js ''pageSize'', pageSize)],
       headers = Some hdrs \<rparr>"

text \<open>\<open>v.map (f)\<close> for an arbitrary value \<open>v\<close>: only an array has \<open>map\<close>; the first
  element on which \<open>f\<close> throws ends the call.\<close>

fun mapE :: "('a \<Rightarrow> js_error + 'b) \<Rightarrow> 'a list \<Rightarrow> js_error + 'b list" where
  "mapE f [] = Inr []"
| "mapE f (x # xs) = bindE (f x) (\<lambda>y. bindE (mapE f xs) (\<lambda>ys. Inr (y # ys)))"

definition mapArray :: "(json \<Rightarrow> js_error + json) \<Rightarrow> json \<Rightarrow> js_error + json list" where
  "mapArray f v =
     (case v of
        JArr xs \<Rightarrow> mapE f xs
      | JUndefined \<Rightarrow> Inl (TypeError (js ''Cannot read properties of undefined (reading map)''))
      | JNull \<Rightarrow> Inl (TypeError (js ''Cannot read properties of null (reading map)''))
      | _ \<Rightarrow> Inl (TypeError (js ''map is not a function'')))"

text \<open>\<open>v > 500\<close> for an arbitrary value \<open>v\<close>.\<close>

definition gt500 :: "engine \<Rightarrow> json \<Rightarrow> bool" where
  "gt500 E v =
     (case v of
        JNum n \<Rightarrow> 500 < n
      | JUndefined \<Rightarrow> False
      | JNull \<Rightarrow> False
      | JBool b \<Rightarrow> False
      | _ \<Rightarrow> (case toNumber E v of None \<Rightarrow> False | Some n \<Rightarrow> 500 < n))"

text \<open>\<open>x && x.length > 500 ? x.substring(0, 500) + '...' : x\<close>: only a string has
  \<open>substring\<close>.\<close>

definition truncate500 :: "engine \<Rightarrow> json \<Rightarrow> js_error + json" where
  "truncate500 E x =
     (if \<not> truthy x then Inr x
      else case x of
        JStr s \<Rightarrow> Inr (if 500 < length s then JStr (take 500 s @ js ''...'') else x)
      | JArr xs \<Rightarrow>
          if 500 < length xs then Inl (TypeError (js ''substring is not a function''))
          else Inr x
      | JObj kvs \<Rightarrow>
          if gt500 E (lookup kvs ''length'')
          then Inl (TypeError (js ''substring is not a function''))
          else Inr x
      | _ \<Rightarrow> Inr x)"

text \<open>\<open>r ? { id: r.id, name: r.name } : null\<close>.\<close>

definition relation :: "json \<Rightarrow> json" where
  "relation r =
     (if truthy r then JObj [(js ''id'', readProp r ''id''), (js ''name'', readProp r ''name'')]
      else JNull)"

text \<open>\<open>t ? t.map (tag => ({ id: tag.id, name: tag.name })) : []\<close>.\<close>

definition summarizeTags :: "json \<Rightarrow> js_error + json" where
  "summarizeTags t =
     (if truthy t then
        bindE (mapArray (\<lambda>tag. bindE (getProp tag ''id'') (\<lambda>i.
                   Inr (JObj [(js ''id'', i), (js ''name'', readProp tag ''name'')]))) t)
          (\<lambda>tags. Inr (JArr tags))
      else Inr (JArr []))"

definition summarizeBlogPost :: "engine \<Rightarrow> json \<Rightarrow> js_error + json" where
  "summarizeBlogPost E item =
     bindE (getProp item ''id'') (\<lambda>i.
     bindE (truncate500 E (readProp item ''excerpt'')) (\<lambda>excerpt.
     bindE (summarizeTags (readProp item ''tags'')) (\<lambda>tags.
       Inr (JObj
         [(js ''id'', i),
          (js ''documentId'', readProp item ''documentId''),
          (js ''title'', readProp item ''title''),
          (js ''slug'', readProp item ''slug''),
          (js ''excerpt'', excerpt),
          (js ''reading_time'', readProp item ''reading_time''),
          (js ''published_date'', readProp item ''published_date''),
          (js ''publishedAt'', readProp item ''publishedAt''),
          (js ''createdAt'', readProp item ''createdAt''),
          (js ''updatedAt'', readProp item ''updatedAt''),
          (js ''author'', relation (readProp item ''author'')),
          (js ''category'', relation (readProp item ''category'')),
          (js ''tags'', tags)]))))"

text \<open>The part of a list handler after the response: summary mode when
  \<open>summary && response.data.results\<close>, the whole body otherwise.\<close>

definition listResult ::
  "(json \<Rightarrow> js_error + json) \<Rightarrow> json \<Rightarrow> json \<Rightarrow> js_error + tool_result" where
  "listResult summarize summary data =
     (if truthy summary then
        bindE (getProp data ''results'') (\<lambda>results.
          if truthy results then
            bindE (mapArray summarize results) (\<lambda>items.
              Inr (textResult (JObj [(js ''results'', JArr items),
                                     (js ''pagination'', readProp data ''pagination'')])))
          else Inr (textResult data))
      else Inr (textResult data))"

definition listBlogPosts :: "engine \<Rightarrow> server \<Rightarrow> (jsstring \<times> piece list) list \<Rightarrow> json \<Rightarrow> handled" where
  "listBlogPosts E this hdrs args =
     andThen (listArgs args) (\<lambda>(page, pageSize, summary).
       send E (listRequest this hdrs ''api::blog-post.blog-post'' page pageSize)
         (listResult (summarizeBlogPost E) summary))"

definition getBlogPost :: "engine \<Rightarrow> server \<Rightarrow> (jsstring \<times> piece list) list \<Rightarrow> json \<Rightarrow> handled" where
  "getBlogPost E this hdrs args =
     andThen (getProp args ''document_id'') (\<lambda>document_id.
       send E \<lparr> verb = GET,
                url = [Lit (collection this ''api::blog-post.blog-post'' @ js ''/''),
                       Val document_id],
                body = None, params = None, headers = Some hdrs \<rparr> respond)"

text \<open>\<open>if (args.k) data.k' = args.k\<close>.\<close>

definition copyIf ::
  "json \<Rightarrow> string \<Rightarrow> string \<Rightarrow> (jsstring \<times> json) list \<Rightarrow> (jsstring \<times> json) list" where
  "copyIf args k k' data =
     (if truthy (readProp args k) then setProp k' (readProp args k) data else data)"

text \<open>The first lines of the three update handlers: title, generated slug, explicit
  slug.\<close>

definition titleAndSlug :: "engine \<Rightarrow> json \<Rightarrow> json \<Rightarrow> (jsstring \<times> json) list" where
  "titleAndSlug E args title =
     (let data = [];
          data = (if truthy title then
                    let data = setProp ''title'' title data in
                    if \<not> truthy (readProp args ''slug'')
                    then setProp ''slug'' (JStr (generateSlug (toLowerCase E) title)) data
                    else data
                  else data)
      in copyIf args ''slug'' ''slug'' data)"

definition updateBlogPostData :: "engine \<Rightarrow> json \<Rightarrow> js_error + json" where
  "updateBlogPostData E args =
     bindE (getProp args ''title'') (\<lambda>title.
     bindE (let data = titleAndSlug E args title; content = readProp args ''content'' in
            if truthy content then
              bindE (contentWordCount content) (\<lambda>wordCount.
                Inr (setProp ''reading_time'' (JNum (real (readingTime wordCount)))
                      (setProp ''content'' content data)))
            else Inr data) (\<lambda>data.
       Inr (JObj (copyIf args ''tag_ids'' ''tags''
                 (copyIf args ''category_id'' ''category''
                 (copyIf args ''published_date'' ''published_date''
                 (copyIf args ''description'' ''excerpt'' data)))))))"

definition updateBlogPost :: "engine \<Rightarrow> server \<Rightarrow> (jsstring \<times> piece list) list \<Rightarrow> json \<Rightarrow> handled" where
  "updateBlogPost E this hdrs args =
     andThen (updateBlogPostData E args) (\<lambda>data.
       send E \<lparr> verb = PUT,
                url = [Lit (collection this ''api::blog-post.blog-post'' @ js ''/''),
                       Val (readProp args ''document_id'')],
                body = Some data, params = None, headers = Some hdrs \<rparr> respond)"

text \<open>\<open>args.publish !== false ? 'publish' : 'unpublish'\<close>, then the request to
  \<open>\<dots>/${args.document_id}/actions/${action}\<close> with an empty object as data.\<close>

definition publishRequest ::
  "server \<Rightarrow> (jsstring \<times> piece list) list \<Rightarrow> string \<Rightarrow> json \<Rightarrow> json \<Rightarrow> http_request" where
  "publishRequest this hdrs uid args publish =
     \<lparr> verb = POST,
       url = [Lit (collection this uid @ js ''/''), Val (readProp args ''document_id''),
              Lit (js ''/actions/''),
              Lit (if publish \<noteq> JBool False then js ''publish'' else js ''unpublish'')],
       body = Some (JObj []), params = None, headers = Some hdrs \<rparr>"

definition publishBlogPost :: "engine \<Rightarrow> server \<Rightarrow> (jsstring \<times> piece list) list \<Rightarrow> json \<Rightarrow> handled" where
  "publishBlogPost E this hdrs args =
     andThen (getProp args ''publish'') (\<lambda>publish.
       send E (publishRequest this hdrs ''api::blog-post.blog-post'' args publish) respond)"

definition listAll :: "engine \<Rightarrow> server \<Rightarrow> (jsstring \<times> piece list) list \<Rightarrow> string \<Rightarrow> handled" where
  "listAll E this hdrs uid =
     send E \<lparr> verb = GET, url = [Lit (collection this uid)],
              body = None, params = None, headers = Some hdrs \<rparr> respond"

definition listAuthors :: "engine \<Rightarrow> server \<Rightarrow> (jsstring \<times> piece list) list \<Rightarrow> handled" where
  "listAuthors E this hdrs = listAll E this hdrs ''api::author.author''"

definition listCategories :: "engine \<Rightarrow> server \<Rightarrow> (jsstring \<times> piece list) list \<Rightarrow> handled" where
  "listCategories E this hdrs = listAll E this hdrs ''api::category.category''"

definition listTags :: "engine \<Rightarrow> server \<Rightarrow> (jsstring \<times> piece list) list \<Rightarrow> handled" where
  "listTags E this hdrs = listAll E this hdrs ''api::tag.tag''"

subsection \<open>Tutorials\<close>

definition createTutorialData :: "engine \<Rightarrow> json \<Rightarrow> js_error + json" where
  "createTutorialData E args =
     bindE (getProp args ''title'') (\<lambda>title.
       Inr (JObj
         [(js ''title'', title),
          (js ''slug'', js_or (readProp args ''slug'')
                          (JStr (generateSlug (toLowerCase E) (readProp args ''title'')))),
          (js ''content'', readProp args ''content''),
          (js ''description'', readProp args ''description''),
          (js ''difficulty'', readProp args ''difficulty''),
          (js ''duration'', readProp args ''duration''),
          (js ''author'', readProp args ''author_id''),
          (js ''category'', readProp args ''category_id''),
          (js ''tags'', readProp args ''tag_ids''),
          (js ''publishedAt'', js_or (readProp args ''publishedAt'') JNull)]))"

definition createTutorial :: "engine \<Rightarrow> server \<Rightarrow> (jsstring \<times> piece list) list \<Rightarrow> json \<Rightarrow> handled" where
  "createTutorial E this hdrs args =
     andThen (createTutorialData E args) (\<lambda>data.
       send E \<lparr> verb = POST,
                url = [Lit (collection this ''api::tutorial.tutorial'')],
                body = Some data, params = None, headers = Some hdrs \<rparr> respond)"

definition summarizeTutorial :: "engine \<Rightarrow> json \<Rightarrow> js_error + json" where
  "summarizeTutorial E item =
     bindE (getProp item ''id'') (\<lambda>i.
     bindE (truncate500 E (readProp item ''description'')) (\<lambda>description.
     bindE (summarizeTags (readProp item ''tags'')) (\<lambda>tags.
       Inr (JObj
         [(js ''id'', i),
          (js ''documentId'', readProp item ''documentId''),
          (js ''title'', readProp item ''title''),
          (js ''slug'', readProp item ''slug''),
          (js ''description'', description),
          (js ''difficulty'', readProp item ''difficulty''),
          (js ''duration'', readProp item ''duration''),
          (js ''publishedAt'', readProp item ''publishedAt''),
          (js ''createdAt'', readProp item ''createdAt''),
          (js ''updatedAt'', readProp item ''updatedAt''),
          (js ''author'', relation (readProp item ''author'')),
          (js ''category'', relation (readProp item ''category'')),
          (js ''tags'', tags)]))))"

definition listTutorials :: "engine \<Rightarrow> server \<Rightarrow> (jsstring \<times> piece list) list \<Rightarrow> json \<Rightarrow> handled" where
  "listTutorials E this hdrs args =
     andThen (listArgs args) (\<lambda>(page, pageSize, summary).
       send E (listRequest this hdrs ''api::tutorial.tutorial'' page pageSize)
         (listResult (summarizeTutorial E) summary))"

definition getTutorial :: "engine \<Rightarrow> server \<Rightarrow> (jsstring \<times> piece list) list \<Rightarrow> json \<Rightarrow> handled" where
  "getTutorial E this hdrs args =
     andThen (getProp args ''document_id'') (\<lambda>document_id.
       send E \<lparr> verb = GET,
                url = [Lit (collection this ''api::tutorial.tutorial'' @ js ''/''),
                       Val document_id],
                body = None, params = None, headers = Some hdrs \<rparr> respond)"

definition updateTutorialData :: "engine \<Rightarrow> json \<Rightarrow> js_error + json" where
  "updateTutorialData E args =
     bindE (getProp args ''title'') (\<lambda>title.
       Inr (JObj (copyIf args ''duration'' ''duration''
                 (copyIf args ''difficulty'' ''difficulty''
                 (copyIf args ''description'' ''description''
                 (copyIf args ''content'' ''content'' (titleAndSlug E args title)))))))"

definition updateTutorial :: "engine \<Rightarrow> server \<Rightarrow> (jsstring \<times> piece list) list \<Rightarrow> json \<Rightarrow> handled" where
  "updateTutorial E this hdrs args =
     andThen (updateTutorialData E args) (\<lambda>data.
       send E \<lparr> verb = PUT,
                url = [Lit (collection this ''api::tutorial.tutorial'' @ js ''/''),
                       Val (readProp args ''document_id'')],
                body = Some data, params = None, headers = Some hdrs \<rparr> respond)"

definition publishTutorial :: "engine \<Rightarrow> server \<Rightarrow> (jsstring \<times> piece list) list \<Rightarrow> json \<Rightarrow> handled" where
  "publishTutorial E this hdrs args =
     andThen (getProp args ''publish'') (\<lambda>publish.
       send E (publishRequest this hdrs ''api::tutorial.tutorial'' args publish) respond)"

subsection \<open>Events\<close>

definition createEventData :: "engine \<Rightarrow> json \<Rightarrow> js_error + json" where
  "createEventData E args =
     bindE (getProp args ''title'') (\<lambda>title.
       Inr (JObj
         [(js ''title'', title),
          (js ''slug'', js_or (readProp args ''slug'')
                          (JStr (generateSlug (toLowerCase E) (readProp args ''title'')))),
          (js ''description'', readProp args ''description''),
          (js ''event_type'', readProp args ''event_type''),
          (js ''start_date'', readProp args ''start_date''),
          (js ''end_date'', readProp args ''end_date''),
          (js ''location'', readProp args ''location''),
          (js ''registration_url'', readProp args ''registration_url''),
          (js ''max_attendees'', readProp args ''max_attendees''),
          (js ''publishedAt'', js_or (readProp args ''publishedAt'') JNull)]))"

definition createEvent :: "engine \<Rightarrow> server \<Rightarrow> (jsstring \<times> piece list) list \<Rightarrow> json \<Rightarrow> handled" where
  "createEvent E this hdrs args =
     andThen (createEventData E args) (\<lambda>data.
       send E \<lparr> verb = POST,
                url = [Lit (collection this ''api::event.event'')],
                body = Some data, params = None, headers = Some hdrs \<rparr> respond)"

definition summarizeEvent :: "json \<Rightarrow> js_error + json" where
  "summarizeEvent item =
     bindE (getProp item ''id'') (\<lambda>i.
       Inr (JObj
         [(js ''id'', i),
          (js ''documentId'', readProp item ''documentId''),
          (js ''title'', readProp item ''title''),
          (js ''slug'', readProp item ''slug''),
          (js ''event_type'', readProp item ''event_type''),
          (js ''start_date'', readProp item ''start_date''),
          (js ''end_date'', readProp item ''end_date''),
          (js ''location'', readProp item ''location''),
          (js ''registration_url'', readProp item ''registration_url''),
          (js ''max_attendees'', readProp item ''max_attendees''),
          (js ''publishedAt'', readProp item ''publishedAt''),
          (js ''createdAt'', readProp item ''createdAt''),
          (js ''updatedAt'', readProp item ''updatedAt'')]))"

definition listEvents :: "engine \<Rightarrow> server \<Rightarrow> (jsstring \<times> piece list) list \<Rightarrow> json \<Rightarrow> handled" where
  "listEvents E this hdrs args =
     andThen (listArgs args) (\<lambda>(page, pageSize, summary).
       send E (listRequest this hdrs ''api::event.event'' page pageSize)
         (listResult summarizeEvent summary))"

definition getEvent :: "engine \<Rightarrow> server \<Rightarrow> (jsstring \<times> piece list) list \<Rightarrow> json \<Rightarrow> handled" where
  "getEvent E this hdrs args =
     andThen (getProp args ''document_id'') (\<lambda>document_id.
       send E \<lparr> verb = GET,
                url = [Lit (collection this ''api::event.event'' @ js ''/''), Val document_id],
                body = None, params = None, headers = Some hdrs \<rparr> respond)"

definition updateEventData :: "engine \<Rightarrow> json \<Rightarrow> js_error + json" where
  "updateEventData E args =
     bindE (getProp args ''title'') (\<lambda>title.
       Inr (JObj (copyIf args ''registration_url'' ''registration_url''
                 (copyIf args ''location'' ''location''
                 (copyIf args ''end_date'' ''end_date''
                 (copyIf args ''start_date'' ''start_date''
                 (copyIf args ''description'' ''description'' (titleAndSlug E args title))))))))"

definition updateEvent :: "engine \<Rightarrow> server \<Rightarrow> (jsstring \<times> piece list) list \<Rightarrow> json \<Rightarrow> handled" where
  "updateEvent E this hdrs args =
     andThen (updateEventData E args) (\<lambda>data.
       send E \<lparr> verb = PUT,
                url = [Lit (collection this ''api::event.event'' @ js ''/''),
                       Val (readProp args ''document_id'')],
                body = Some data, params = None, headers = Some hdrs \<rparr> respond)"

definition publishEvent :: "engine \<Rightarrow> server \<Rightarrow> (jsstring \<times> piece list) list \<Rightarrow> json \<Rightarrow> handled" where
  "publishEvent E this hdrs args =
     andThen (getProp args ''publish'') (\<lambda>publish.
       send E (publishRequest this hdrs ''api::event.event'' args publish) respond)"

section \<open>The call-tool handler\<close>

text \<open>\<open>request.params\<close>: the SDK hands the handler a request whose \<open>name\<close> is a string;
  \<open>arguments\<close> is \<open>undefined\<close> when the caller sent none.\<close>

record request =
  name :: jsstring
  arguments :: json

definition toolNames :: "string list" where
  "toolNames =
     [''strapi_create_blog_post'', ''strapi_list_blog_posts'', ''strapi_get_blog_post'',
      ''strapi_update_blog_post'', ''strapi_publish_blog_post'', ''strapi_list_authors'',
      ''strapi_list_categories'', ''strapi_list_tags'', ''strapi_create_tutorial'',
      ''strapi_list_tutorials'', ''strapi_get_tutorial'', ''strapi_update_tutorial'',
      ''strapi_publish_tutorial'', ''strapi_create_event'', ''strapi_list_events'',
      ''strapi_get_event'', ''strapi_update_event'', ''strapi_publish_event'']"

text \<open>The \<open>switch\<close> on the tool name.\<close>

definition dispatch ::
  "engine \<Rightarrow> server \<Rightarrow> (jsstring \<times> piece list) list \<Rightarrow> request \<Rightarrow> handled" where
  "dispatch E this hdrs r =
     (let n = name r; args = arguments r in
      if n = js ''strapi_create_blog_post'' then createBlogPost E this hdrs args
      else if n = js ''strapi_list_blog_posts'' then listBlogPosts E this hdrs args
      else if n = js ''strapi_get_blog_post'' then getBlogPost E this hdrs args
      else if n = js ''strapi_update_blog_post'' then updateBlogPost E this hdrs args
      else if n = js ''strapi_publish_blog_post'' then publishBlogPost E this hdrs args
      else if n = js ''strapi_list_authors'' then listAuthors E this hdrs
      else if n = js ''strapi_list_categories'' then listCategories E this hdrs
      else if n = js ''strapi_list_tags'' then listTags E this hdrs
      else if n = js ''strapi_create_tutorial'' then createTutorial E this hdrs args
      else if n = js ''strapi_list_tutorials'' then listTutorials E this hdrs args
      else if n = js ''strapi_get_tutorial'' then getTutorial E this hdrs args
      else if n = js ''strapi_update_tutorial'' then updateTutorial E this hdrs args
      else if n = js ''strapi_publish_tutorial'' then publishTutorial E this hdrs args
      else if n = js ''strapi_create_event'' then createEvent E this hdrs args
      else if n = js ''strapi_list_events'' then listEvents E this hdrs args
      else if n = js ''strapi_get_event'' then getEvent E this hdrs args
      else if n = js ''strapi_update_event'' then updateEvent E this hdrs args
      else if n = js ''strapi_publish_event'' then publishEvent E this hdrs args
      else (Inl (Error (js ''Unknown tool: '' @ n)), []))"

definition authHeaders :: "json \<Rightarrow> (jsstring \<times> piece list) list" where
  "authHeaders token =
     [(js ''Authorization'', [Lit (js ''Bearer ''), Val token]),
      (js ''Content-Type'', [Lit (js ''application/json'')])]"

text \<open>The body of the \<open>try\<close> block: what it returns or throws, the server object after
  it, the login requests sent by \<open>authenticate\<close> and the requests sent by the tool's
  handler.\<close>

definition callToolTry ::
  "engine \<Rightarrow> server \<Rightarrow> request \<Rightarrow>
     (js_error + tool_result) \<times> server \<times> http_request list \<times> http_request list" where
  "callToolTry E this r =
     (case authenticate E this of
        (Inl error, this', logins) \<Rightarrow> (Inl error, this', logins, [])
      | (Inr token, this', logins) \<Rightarrow>
          (case dispatch E this' (authHeaders token) r of
             (res, sent) \<Rightarrow> (res, this', logins, sent)))"

text \<open>The \<open>catch\<close> block.\<close>

definition errorResult :: "js_error \<Rightarrow> tool_result" where
  "errorResult error =
     \<lparr> content = [PlainText (js ''Error: '' @ message error)], isError = True \<rparr>"

record outcome =
  result :: tool_result
  serverAfter :: server
  loginCalls :: "http_request list"
  toolCalls :: "http_request list"

definition callTool :: "engine \<Rightarrow> server \<Rightarrow> request \<Rightarrow> outcome" where
  "callTool E this r =
     (case callToolTry E this r of
        (res, this', logins, sent) \<Rightarrow>
          \<lparr> result = (case res of Inl error \<Rightarrow> errorResult error | Inr v \<Rightarrow> v),
            serverAfter = this', loginCalls = logins, toolCalls = sent \<rparr>)"

section \<open>Auxiliary notions and concrete instances\<close>

text \<open>What every handler observes: it sends no request and throws, or it sends exactly
  one request, throws what that request throws, and returns a result that is not flagged
  as an error.\<close>

definition disciplined :: "engine \<Rightarrow> handled \<Rightarrow> bool" where
  "disciplined E x \<longleftrightarrow>
     (case snd x of
        [] \<Rightarrow> (\<exists>e. fst x = Inl e)
      | [q] \<Rightarrow> (\<forall>e. axios E q = Inl e \<longrightarrow> fst x = Inl e)
               \<and> (\<forall>v. fst x = Inr v \<longrightarrow> \<not> isError v)
      | _ \<Rightarrow> False)"

text \<open>A process environment, an engine and two server objects for concrete
  instances.\<close>

definition envOf :: "(string \<times> string) list \<Rightarrow> string \<Rightarrow> jsstring option" where
  "envOf kvs k = map_option js (map_of kvs k)"

definition engineWith :: "nat \<Rightarrow> (http_request \<Rightarrow> js_error + json) \<Rightarrow> engine" where
  "engineWith now backend =
     \<lparr> toLowerCase = asciiLowerCase, toNumber = (\<lambda>v. None), dateNow = now,
       toISOString = js ''2025-01-01T00:00:00.000Z'', axios = backend \<rparr>"

definition adminServer :: server where
  "adminServer =
     \<lparr> strapiUrl = js ''http://localhost:1337'', apiToken = None,
       adminEmail = Some (js ''admin@example.com''), adminPassword = Some (js ''secret''),
       jwtToken = JNull, tokenExpiry = None \<rparr>"

definition tokenServer :: server where
  "tokenServer = adminServer\<lparr> apiToken := Some (js ''api-token'') \<rparr>"

definition loginOk :: "http_request \<Rightarrow> js_error + json" where
  "loginOk r = Inr (JObj [(js ''data'', JObj [(js ''token'', JStr (js ''jwt-1''))])])"

definition backendDown :: "http_request \<Rightarrow> js_error + json" where
  "backendDown r = Inl (AxiosError (js ''connect ECONNREFUSED''))"

definition tokenHeaders :: "(jsstring \<times> piece list) list" where
  "tokenHeaders = authHeaders (JStr (js ''api-token''))"

definition tagsBackend :: "http_request \<Rightarrow> js_error + json" where
  "tagsBackend r = Inr (JObj [(js ''results'', JArr [])])"

text \<open>The arguments that the list tools advertise as filters.\<close>

definition filterArgs :: "string list" where
  "filterArgs = [''status'', ''category_id'', ''author_id'', ''tag_id'', ''difficulty'',
                 ''event_type'', ''upcoming'', ''sort'', ''search'']"

definition draftsQuery :: "(jsstring \<times> json) list" where
  "draftsQuery =
     [(js ''page'', JNum 2), (js ''status'', JStr (js ''draft'')), (js ''category_id'', JNum 7),
      (js ''sort'', JStr (js ''title:asc'')), (js ''search'', JStr (js ''slug''))]"

definition plainQuery :: "(jsstring \<times> json) list" where
  "plainQuery = [(js ''page'', JNum 2)]"

text \<open>The lines \<open>if (args.k) data.k' = args.k\<close> of the three update handlers, as pairs
  of argument name and payload name.\<close>

definition blogUpdateFields :: "(string \<times> string) list" where
  "blogUpdateFields =
     [(''title'', ''title''), (''slug'', ''slug''), (''content'', ''content''),
      (''description'', ''excerpt''), (''published_date'', ''published_date''),
      (''category_id'', ''category''), (''tag_ids'', ''tags'')]"

definition tutorialUpdateFields :: "(string \<times> string) list" where
  "tutorialUpdateFields =
     [(''title'', ''title''), (''slug'', ''slug''), (''content'', ''content''),
      (''description'', ''description''), (''difficulty'', ''difficulty''),
      (''duration'', ''duration'')]"

definition eventUpdateFields :: "(string \<times> string) list" where
  "eventUpdateFields =
     [(''title'', ''title''), (''slug'', ''slug''), (''description'', ''description''),
      (''start_date'', ''start_date''), (''end_date'', ''end_date''),
      (''location'', ''location''), (''registration_url'', ''registration_url'')]"

definition updateOperations ::
  "((string \<times> string) list \<times> (engine \<Rightarrow> json \<Rightarrow> js_error + json)) list" where
  "updateOperations =
     [(blogUpdateFields, updateBlogPostData),
      (tutorialUpdateFields, updateTutorialData),
      (eventUpdateFields, updateEventData)]"

text \<open>A payload entry with a truthy value, or the slug property holding the empty
  string.\<close>

definition passable :: "jsstring \<times> json \<Rightarrow> bool" where
  "passable kv \<longleftrightarrow> truthy (snd kv) \<or> kv = (js ''slug'', JStr [])"

definition tutorialPatch :: json where
  "tutorialPatch =
     JObj [(js ''document_id'', JStr (js ''t1'')), (js ''title'', JStr (js ''Intro to X'')),
           (js ''difficulty'', JStr []), (js ''duration'', JNum 0),
           (js ''description'', JStr (js ''Basics''))]"






definition twoHundredWords :: jsstring where
  "twoHundredWords = concat (replicate 200 (js ''word'' @ [10]))"

subsection \<open>Readable arguments\<close>


subsection \<open>Words joined by hyphens\<close>

text \<open>
  The reference notion the slug is compared with. It is not taken from the source: it
  says what ``the words of a string, joined by single hyphens'' means. A separator is a
  white-space character or a hyphen; \<open>wordsBy P s\<close> lists the maximal non-empty runs of
  characters of \<open>s\<close> that do not satisfy \<open>P\<close>, in order; \<open>joinHyphens\<close> is
  \<open>words.join('-')\<close>.
\<close>

definition isSeparator :: "nat \<Rightarrow> bool" where
  "isSeparator c \<longleftrightarrow> isWhiteSpace c \<or> isHyphen c"

function wordsBy :: "(nat \<Rightarrow> bool) \<Rightarrow> jsstring \<Rightarrow> jsstring list" where
  "wordsBy P s =
     (case dropWhile P s of
        [] \<Rightarrow> []
      | c # cs \<Rightarrow>
          (c # takeWhile (\<lambda>x. \<not> P x) cs) # wordsBy P (dropWhile (\<lambda>x. \<not> P x) cs))"
  by pat_completeness auto
termination
proof (relation "measure (\<lambda>(P, s). length s)")
  show "wf (measure (\<lambda>(P, s). length s))" by simp
next
  fix P :: "nat \<Rightarrow> bool" and s cs :: jsstring and c :: nat
  assume d: "dropWhile P s = c # cs"
  have "length (dropWhile (\<lambda>x. \<not> P x) cs) \<le> length cs"
    by (rule length_dropWhile_le)
  also have "\<dots> < length (dropWhile P s)" using d by simp
  also have "\<dots> \<le> length s" by (rule length_dropWhile_le)
  finally show "((P, dropWhile (\<lambda>x. \<not> P x) cs), (P, s)) \<in> measure (\<lambda>(P, s). length s)"
    by simp
qed

declare wordsBy.simps [simp del]

fun joinHyphens :: "jsstring list \<Rightarrow> jsstring" where
  "joinHyphens [] = []"
| "joinHyphens [w] = w"
| "joinHyphens (w # v # ws) = w @ js ''-'' @ joinHyphens (v # ws)"


section \<open>Properties of the slug\<close>

lemma js_hyphen: "js ''-'' = [45]"
  by (simp add: js_def)

lemma set_replaceRuns:
  "set (replaceRuns P r s) \<subseteq> set r \<union> {c \<in> set s. \<not> P c}"
proof (induction P r s rule: replaceRuns.induct)
  case (1 P r)
  show ?case by simp
next
  case (2 P r c cs)
  have "set (dropWhile P cs) \<subseteq> set cs"
    by (auto dest: set_dropWhileD)
  with 2 show ?case by (auto split: if_splits)
qed

lemma filter_dropWhile_disjoint:
  "(\<And>x. P x \<Longrightarrow> \<not> Q x) \<Longrightarrow> filter Q (dropWhile P xs) = filter Q xs"
  by (induction xs) auto

lemma filter_replaceRuns:
  "(\<forall>x. P x \<longrightarrow> \<not> Q x) \<Longrightarrow> (\<forall>x\<in>set r. \<not> Q x) \<Longrightarrow>
   filter Q (replaceRuns P r s) = filter Q s"
proof (induction P r s rule: replaceRuns.induct)
  case (1 P r)
  show ?case by simp
next
  case (2 P r c cs)
  show ?case
  proof (cases "P c")
    case True
    have r: "filter Q r = []"
      using 2(4) by (simp add: filter_empty_conv)
    have "filter Q (replaceRuns P r (dropWhile P cs)) = filter Q (dropWhile P cs)"
      using 2(1) [OF True 2(3) 2(4)] .
    also have "\<dots> = filter Q cs"
      using 2(3) by (intro filter_dropWhile_disjoint) blast
    finally show ?thesis
      using True 2(3) r by simp
  next
    case False
    then show ?thesis
      using 2(2) [OF False 2(3) 2(4)] by simp
  qed
qed

lemma replaceRuns_not_prefix:
  assumes "P h" and "s = [] \<or> \<not> P (hd s)"
  shows "\<not> prefix [h] (replaceRuns P r s)"
proof (cases s)
  case Nil
  then show ?thesis by simp
next
  case (Cons c cs)
  with assms have "\<not> P c" by simp
  with assms(1) have "c \<noteq> h" by blast
  with Cons \<open>\<not> P c\<close> show ?thesis by simp
qed

lemma dropWhile_head:
  "dropWhile P xs = [] \<or> \<not> P (hd (dropWhile P xs))"
  by (cases "dropWhile P xs = []") (simp_all add: hd_dropWhile)

lemma replaceRuns_no_double:
  "\<not> sublist [45, 45] (replaceRuns isHyphen [45] s)"
proof (induction isHyphen "[45::nat]" s rule: replaceRuns.induct)
  case 1
  show ?case by simp
next
  case (2 c cs)
  show ?case
  proof (cases "isHyphen c")
    case True
    have "\<not> prefix [45] (replaceRuns isHyphen [45] (dropWhile isHyphen cs))"
      by (rule replaceRuns_not_prefix) (simp add: isHyphen_def, rule dropWhile_head)
    with True 2(1) show ?thesis
      by (simp add: sublist_Cons_right)
  next
    case False
    with 2(2) show ?thesis
      by (simp add: sublist_Cons_right isHyphen_def)
  qed
qed

lemma prefix_rev_dropWhile_rev:
  "prefix (rev (dropWhile P (rev t))) t"
proof -
  have "rev t = takeWhile P (rev t) @ dropWhile P (rev t)" by simp
  then have "t = rev (dropWhile P (rev t)) @ rev (takeWhile P (rev t))"
    by (metis rev_append rev_rev_ident)
  then show ?thesis by (metis prefixI)
qed

lemma sublist_stripHyphens: "sublist (stripHyphens s) s"
proof -
  have "sublist (stripHyphens s) (dropWhile isHyphen s)"
    unfolding stripHyphens_def by (rule prefix_imp_sublist) (rule prefix_rev_dropWhile_rev)
  moreover have "sublist (dropWhile isHyphen s) s"
    by (rule suffix_imp_sublist) (rule suffix_dropWhile)
  ultimately show ?thesis by (rule sublist_order.order.trans)
qed

lemma stripHyphens_not_prefix: "\<not> prefix [45] (stripHyphens s)"
proof
  assume "prefix [45] (stripHyphens s)"
  moreover have "prefix (stripHyphens s) (dropWhile isHyphen s)"
    unfolding stripHyphens_def by (rule prefix_rev_dropWhile_rev)
  ultimately have "prefix [45] (dropWhile isHyphen s)"
    by (rule prefix_order.trans)
  then obtain zs where "dropWhile isHyphen s = 45 # zs"
    by (auto simp: prefix_def)
  moreover have "dropWhile isHyphen s = [] \<or> \<not> isHyphen (hd (dropWhile isHyphen s))"
    by (rule dropWhile_head)
  ultimately show False by (simp add: isHyphen_def)
qed

lemma stripHyphens_not_suffix: "\<not> suffix [45] (stripHyphens s)"
proof
  assume "suffix [45] (stripHyphens s)"
  then have "prefix [45] (dropWhile isHyphen (rev (dropWhile isHyphen s)))"
    by (simp add: suffix_to_prefix stripHyphens_def)
  then obtain zs where z: "dropWhile isHyphen (rev (dropWhile isHyphen s)) = 45 # zs"
    by (auto simp: prefix_def)
  have "dropWhile isHyphen (rev (dropWhile isHyphen s)) = []
      \<or> \<not> isHyphen (hd (dropWhile isHyphen (rev (dropWhile isHyphen s))))"
    by (rule dropWhile_head)
  with z show False by (simp add: isHyphen_def)
qed

lemma isAlnum_alphabet: "isAlnum c \<or> c = 45 \<Longrightarrow> c \<in> set slugAlphabet"
  unfolding isAlnum_def slugAlphabet_def js_def by simp arith

lemma set_pipeline:
  "set (stripHyphens (replaceRuns isHyphen [45] (replaceRuns isWhiteSpace [45] (trim (filter keepChar u)))))
     \<subseteq> {c. isAlnum c \<or> c = 45}"
proof -
  let ?a = "trim (filter keepChar u)"
  let ?b = "replaceRuns isWhiteSpace [45] ?a"
  let ?c = "replaceRuns isHyphen [45] ?b"
  have a: "set ?a \<subseteq> {c. keepChar c}"
    unfolding trim_def by (auto dest!: set_dropWhileD)
  have "set ?b \<subseteq> set [45] \<union> {c \<in> set ?a. \<not> isWhiteSpace c}"
    by (rule set_replaceRuns)
  with a have b: "set ?b \<subseteq> {c. isAlnum c \<or> c = 45}"
    by (auto simp: keepChar_def isHyphen_def)
  have "set ?c \<subseteq> set [45] \<union> {c \<in> set ?b. \<not> isHyphen c}"
    by (rule set_replaceRuns)
  with b have c: "set ?c \<subseteq> {c. isAlnum c \<or> c = 45}"
    by auto
  have "set (stripHyphens ?c) \<subseteq> set ?c"
    using sublist_stripHyphens [of ?c] by (rule set_mono_sublist)
  with c show ?thesis by blast
qed

lemma filter_pipeline:
  "filter isAlnum (stripHyphens (replaceRuns isHyphen [45] (replaceRuns isWhiteSpace [45] (trim (filter keepChar u)))))
     = filter isAlnum u"
proof -
  have ws: "\<And>x. isWhiteSpace x \<Longrightarrow> \<not> isAlnum x"
    by (auto simp: isWhiteSpace_def isAlnum_def)
  have hy: "\<And>x. isHyphen x \<Longrightarrow> \<not> isAlnum x"
    by (auto simp: isHyphen_def isAlnum_def)
  have strip: "filter isAlnum (stripHyphens s) = filter isAlnum s" for s
    unfolding stripHyphens_def
    by (simp add: rev_filter [symmetric] filter_dropWhile_disjoint [OF hy])
  have tr: "filter isAlnum (trim s) = filter isAlnum s" for s
    unfolding trim_def
    by (simp add: rev_filter [symmetric] filter_dropWhile_disjoint [OF ws])
  have r1: "filter isAlnum (replaceRuns isWhiteSpace [45] s) = filter isAlnum s" for s
    by (rule filter_replaceRuns) (auto simp: isWhiteSpace_def isAlnum_def)
  have r2: "filter isAlnum (replaceRuns isHyphen [45] s) = filter isAlnum s" for s
    by (rule filter_replaceRuns) (auto simp: isHyphen_def isAlnum_def)
  have k: "filter (\<lambda>x. keepChar x \<and> isAlnum x) u = filter isAlnum u"
    by (rule filter_cong) (auto simp: keepChar_def)
  show ?thesis by (simp add: strip r2 r1 tr k)
qed

lemmas slug_eval = generateSlug_def asciiLowerCase_def js_def keepChar_def isAlnum_def
  isWhiteSpace_def isHyphen_def trim_def stripHyphens_def slugAlphabet_def


subsection \<open>The slug as hyphen-joined words\<close>

lemma wordsBy_Nil: "wordsBy P [] = []"
  by (subst wordsBy.simps) simp

lemma wordsBy_sep: "P c \<Longrightarrow> wordsBy P (c # cs) = wordsBy P cs"
  by (subst wordsBy.simps, subst (2) wordsBy.simps) simp

lemma wordsBy_word:
  "\<not> P c \<Longrightarrow>
   wordsBy P (c # cs) = (c # takeWhile (\<lambda>x. \<not> P x) cs) # wordsBy P (dropWhile (\<lambda>x. \<not> P x) cs)"
  by (subst wordsBy.simps) simp

lemma wordsBy_step:
  assumes "\<not> P c"
  shows "wordsBy P (c # cs) =
           (if cs \<noteq> [] \<and> \<not> P (hd cs) then (c # hd (wordsBy P cs)) # tl (wordsBy P cs)
            else [c] # wordsBy P cs)"
proof (cases cs)
  case Nil
  with assms show ?thesis by (simp add: wordsBy_word wordsBy_Nil)
next
  case (Cons d ds)
  show ?thesis
  proof (cases "P d")
    case True
    with assms Cons show ?thesis by (simp add: wordsBy_word)
  next
    case False
    with assms Cons show ?thesis by (simp add: wordsBy_word)
  qed
qed

lemma wordsBy_dropWhile:
  "(\<And>c. Q c \<Longrightarrow> P c) \<Longrightarrow> wordsBy P (dropWhile Q s) = wordsBy P s"
  by (induction s) (auto simp: wordsBy_sep)

lemma wordsBy_separators: "\<forall>c\<in>set z. P c \<Longrightarrow> wordsBy P z = []"
  by (induction z) (auto simp: wordsBy_Nil wordsBy_sep)

lemma wordsBy_append_separators:
  assumes "\<forall>c\<in>set z. P c"
  shows "wordsBy P (a @ z) = wordsBy P a"
proof (induction a)
  case Nil
  from assms show ?case by (simp add: wordsBy_separators wordsBy_Nil)
next
  case (Cons c a)
  show ?case
  proof (cases "P c")
    case True
    with Cons show ?thesis by (simp add: wordsBy_sep)
  next
    case False
    have h: "(a @ z \<noteq> [] \<and> \<not> P (hd (a @ z))) \<longleftrightarrow> (a \<noteq> [] \<and> \<not> P (hd a))"
      using assms by (cases a; cases z) auto
    show ?thesis
      unfolding append_Cons wordsBy_step [of P c "a @ z", OF False]
        wordsBy_step [of P c a, OF False] h Cons ..
  qed
qed

lemma wordsBy_strip_both:
  assumes "\<And>c. Q c \<Longrightarrow> P c"
  shows "wordsBy P (rev (dropWhile Q (rev (dropWhile Q s)))) = wordsBy P s"
proof -
  let ?y = "dropWhile Q s"
  let ?a = "rev (dropWhile Q (rev ?y))"
  let ?z = "rev (takeWhile Q (rev ?y))"
  have "rev ?y = takeWhile Q (rev ?y) @ dropWhile Q (rev ?y)" by simp
  then have "rev (rev ?y) = rev (takeWhile Q (rev ?y) @ dropWhile Q (rev ?y))"
    by (rule arg_cong)
  then have y: "?y = ?a @ ?z" by (simp only: rev_rev_ident rev_append)
  have "\<forall>c\<in>set ?z. P c"
    using assms by (auto dest: set_takeWhileD)
  then have "wordsBy P (?a @ ?z) = wordsBy P ?a"
    by (rule wordsBy_append_separators)
  with y have "wordsBy P ?a = wordsBy P ?y" by simp
  also have "\<dots> = wordsBy P s"
    using assms by (rule wordsBy_dropWhile)
  finally show ?thesis .
qed


lemma wordsBy_replaceRuns:
  "(\<forall>c. R c \<longrightarrow> P c) \<Longrightarrow> P h \<Longrightarrow>
   wordsBy P (replaceRuns R [h] x) = wordsBy P x
   \<and> ((replaceRuns R [h] x \<noteq> [] \<and> \<not> P (hd (replaceRuns R [h] x)))
        \<longleftrightarrow> (x \<noteq> [] \<and> \<not> P (hd x)))"
proof (induction R "[h]" x rule: replaceRuns.induct)
  case (1 R)
  show ?case by simp
next
  case (2 R c cs)
  note sub = "2.prems"(1) and h = "2.prems"(2)
  show ?case
  proof (cases "R c")
    case True
    with sub have c: "P c" by blast
    have "wordsBy P (replaceRuns R [h] (dropWhile R cs)) = wordsBy P (dropWhile R cs)"
      using "2.hyps"(1) [OF True sub h] by simp
    also have "\<dots> = wordsBy P cs"
      using sub by (intro wordsBy_dropWhile) blast
    finally show ?thesis
      using True c h by (simp add: wordsBy_sep)
  next
    case False
    note IH = "2.hyps"(2) [OF False sub h]
    show ?thesis
    proof (cases "P c")
      case True
      with False IH show ?thesis by (simp add: wordsBy_sep)
    next
      case c: False
      show ?thesis
        using False IH
        by (simp add: wordsBy_step [of P c "replaceRuns R [h] cs", OF c]
            wordsBy_step [of P c cs, OF c] c)
    qed
  qed
qed

lemma wordsBy_parts:
  "\<forall>w\<in>set (wordsBy P s). w \<noteq> [] \<and> (\<forall>c\<in>set w. c \<in> set s \<and> \<not> P c)"
proof (induction P s rule: wordsBy.induct)
  case (1 P s)
  show ?case
  proof (cases "dropWhile P s")
    case Nil
    show ?thesis by (subst wordsBy.simps) (simp add: Nil)
  next
    case (Cons c cs)
    have sub: "set (c # cs) \<subseteq> set s"
      unfolding Cons [symmetric] by (auto dest: set_dropWhileD)
    have c: "\<not> P c"
      using hd_dropWhile [of P s] Cons by simp
    have w: "wordsBy P s
        = (c # takeWhile (\<lambda>x. \<not> P x) cs) # wordsBy P (dropWhile (\<lambda>x. \<not> P x) cs)"
      by (subst wordsBy.simps) (simp add: Cons)
    have t: "\<forall>x\<in>set (takeWhile (\<lambda>x. \<not> P x) cs). x \<in> set cs \<and> \<not> P x"
      by (auto dest: set_takeWhileD)
    have d: "set (dropWhile (\<lambda>x. \<not> P x) cs) \<subseteq> set cs"
      by (auto dest: set_dropWhileD)
    have first: "\<forall>x\<in>set (c # takeWhile (\<lambda>x. \<not> P x) cs). x \<in> set s \<and> \<not> P x"
      using sub c t by auto
    have "set (dropWhile (\<lambda>x. \<not> P x) cs) \<subseteq> set s"
      using d sub by auto
    with "1.IH" [OF Cons]
    have rest: "\<forall>w\<in>set (wordsBy P (dropWhile (\<lambda>x. \<not> P x) cs)).
                  w \<noteq> [] \<and> (\<forall>x\<in>set w. x \<in> set s \<and> \<not> P x)"
      by blast
    show ?thesis
    proof
      fix v assume "v \<in> set (wordsBy P s)"
      then have "v = c # takeWhile (\<lambda>x. \<not> P x) cs
          \<or> v \<in> set (wordsBy P (dropWhile (\<lambda>x. \<not> P x) cs))"
        by (simp only: w list.set insert_iff)
      then show "v \<noteq> [] \<and> (\<forall>c\<in>set v. c \<in> set s \<and> \<not> P c)"
        using first rest by blast
    qed
  qed
qed


lemma joinHyphens_normal:
  assumes "\<forall>c\<in>set f. \<not> isWhiteSpace c" and "\<not> prefix [45] f" and "\<not> suffix [45] f"
    and "\<not> sublist [45, 45] f"
  shows "joinHyphens (wordsBy isSeparator f) = f"
  using assms
proof (induction "length f" arbitrary: f rule: less_induct)
  case less
  note nows = less.prems(1) and np = less.prems(2) and ns = less.prems(3) and nd = less.prems(4)
  show ?case
  proof (cases f)
    case Nil
    then show ?thesis by (simp add: wordsBy_Nil)
  next
    case (Cons c cs)
    let ?nsep = "\<lambda>x. \<not> isSeparator x"
    let ?w = "c # takeWhile ?nsep cs"
    let ?rest = "dropWhile ?nsep cs"
    from np Cons have "c \<noteq> 45" by auto
    moreover from nows Cons have "\<not> isWhiteSpace c" by simp
    ultimately have c: "\<not> isSeparator c"
      by (simp add: isSeparator_def isHyphen_def)
    have f: "f = ?w @ ?rest"
      using Cons by simp
    have w: "wordsBy isSeparator f = ?w # wordsBy isSeparator ?rest"
      unfolding Cons using c by (rule wordsBy_word)
    show ?thesis
    proof (cases ?rest)
      case Nil
      with f w show ?thesis by (simp add: wordsBy_Nil)
    next
      case (Cons d g)
      have "?rest \<noteq> []"
        using Cons by simp
      then have "\<not> ?nsep (hd ?rest)"
        by (rule hd_dropWhile)
      with Cons have "isSeparator d" by simp
      moreover have "d \<in> set ?rest"
        unfolding Cons by simp
      then have "d \<in> set f"
        by (subst f) (auto dest: set_dropWhileD)
      ultimately have d: "d = 45"
        using nows by (auto simp: isSeparator_def isHyphen_def)
      have fg: "f = ?w @ 45 # g"
        using f Cons d by simp
      have "f = (?w @ [45]) @ g"
        by (subst fg) simp
      then have "suffix g f"
        by (rule suffixI)
      then have sub: "sublist g f"
        by (rule suffix_imp_sublist)
      have g_ne: "g \<noteq> []"
      proof
        assume "g = []"
        with fg have "suffix [45] f" by (simp add: suffix_def)
        with ns show False ..
      qed
      have g_np: "\<not> prefix [45] g"
      proof
        assume "prefix [45] g"
        then obtain g' where "g = 45 # g'" by (auto simp: prefix_def)
        with fg have "f = ?w @ [45, 45] @ g'" by simp
        then have "sublist [45, 45] f" unfolding sublist_def by blast
        with nd show False ..
      qed
      have g_ns: "\<not> suffix [45] g"
      proof
        assume "suffix [45] g"
        then obtain g' where "g = g' @ [45]" by (auto simp: suffix_def)
        with fg have "f = (?w @ 45 # g') @ [45]" by simp
        then have "suffix [45] f" unfolding suffix_def by blast
        with ns show False ..
      qed
      have g_nd: "\<not> sublist [45, 45] g"
        using nd sub sublist_order.order.trans by blast
      have "set g \<subseteq> set f"
        by (subst fg) auto
      with nows have g_ws: "\<forall>c\<in>set g. \<not> isWhiteSpace c"
        by blast
      have "length f = length ?w + Suc (length g)"
        by (subst fg) simp
      then have "length g < length f"
        by simp
      from less.hyps [OF this g_ws g_np g_ns g_nd]
      have IH: "joinHyphens (wordsBy isSeparator g) = g" .
      with g_ne obtain v vs where v: "wordsBy isSeparator g = v # vs"
        by (cases "wordsBy isSeparator g") auto
      have "wordsBy isSeparator ?rest = wordsBy isSeparator g"
        unfolding Cons d by (rule wordsBy_sep) (simp add: isSeparator_def isHyphen_def)
      with w v have "wordsBy isSeparator f = ?w # v # vs" by simp
      then have "joinHyphens (wordsBy isSeparator f) = ?w @ js ''-'' @ joinHyphens (v # vs)"
        by (simp only: joinHyphens.simps)
      also have "\<dots> = ?w @ 45 # g"
        using IH v by (simp add: js_hyphen)
      finally show ?thesis using fg by simp
    qed
  qed
qed


lemma pipeline_words:
  "stripHyphens (replaceRuns isHyphen [45] (replaceRuns isWhiteSpace [45] (trim k)))
     = joinHyphens (wordsBy isSeparator k)"
proof -
  let ?a = "trim k"
  let ?b = "replaceRuns isWhiteSpace [45] ?a"
  let ?c = "replaceRuns isHyphen [45] ?b"
  let ?f = "stripHyphens ?c"
  have h: "isSeparator 45"
    by (simp add: isSeparator_def isHyphen_def)
  have "wordsBy isSeparator ?f = wordsBy isSeparator ?c"
    unfolding stripHyphens_def by (rule wordsBy_strip_both) (simp add: isSeparator_def)
  also have "\<dots> = wordsBy isSeparator ?b"
    using wordsBy_replaceRuns [of isHyphen isSeparator 45 ?b] h
    by (simp add: isSeparator_def)
  also have "\<dots> = wordsBy isSeparator ?a"
    using wordsBy_replaceRuns [of isWhiteSpace isSeparator 45 ?a] h
    by (simp add: isSeparator_def)
  also have "\<dots> = wordsBy isSeparator k"
    unfolding trim_def by (rule wordsBy_strip_both) (simp add: isSeparator_def)
  finally have words: "wordsBy isSeparator ?f = wordsBy isSeparator k" .
  have "set ?a \<subseteq> set k"
    unfolding trim_def by (auto dest!: set_dropWhileD)
  moreover have "set ?b \<subseteq> set [45] \<union> {c \<in> set ?a. \<not> isWhiteSpace c}"
    by (rule set_replaceRuns)
  moreover have "set ?c \<subseteq> set [45] \<union> {c \<in> set ?b. \<not> isHyphen c}"
    by (rule set_replaceRuns)
  moreover have "set ?f \<subseteq> set ?c"
    using sublist_stripHyphens [of ?c] by (rule set_mono_sublist)
  moreover have "\<not> isWhiteSpace 45"
    by (simp add: isWhiteSpace_def)
  ultimately have "\<forall>c\<in>set ?f. \<not> isWhiteSpace c"
    by (simp only: list.set) blast
  moreover have "\<not> prefix [45] ?f"
    by (rule stripHyphens_not_prefix)
  moreover have "\<not> suffix [45] ?f"
    by (rule stripHyphens_not_suffix)
  moreover have "\<not> sublist [45, 45] ?f"
    using replaceRuns_no_double [of ?b] sublist_stripHyphens sublist_order.order.trans by blast
  ultimately have "joinHyphens (wordsBy isSeparator ?f) = ?f"
    by (rule joinHyphens_normal)
  with words show ?thesis by simp
qed

lemma slug_words_alnum:
  "\<forall>w\<in>set (wordsBy isSeparator (filter keepChar u)). w \<noteq> [] \<and> (\<forall>c\<in>set w. isAlnum c)"
proof (intro ballI conjI)
  fix w
  assume "w \<in> set (wordsBy isSeparator (filter keepChar u))"
  with wordsBy_parts [of isSeparator "filter keepChar u"]
  have a: "w \<noteq> [] \<and> (\<forall>c\<in>set w. c \<in> set (filter keepChar u) \<and> \<not> isSeparator c)"
    by blast
  from a show "w \<noteq> []" by blast
  fix c
  assume "c \<in> set w"
  with a have "c \<in> set (filter keepChar u)" and "\<not> isSeparator c" by blast+
  then show "isAlnum c"
    by (simp add: keepChar_def isSeparator_def)
qed

lemmas words_eval = wordsBy_Nil wordsBy_sep wordsBy_word isSeparator_def


text \<open>
  Claim C1. For every string title, \<open>generateSlug\<close> is a function of the title alone
  (equal titles give equal slugs: the source reads no state, clock or random source), and
  the slug is the lower-cased title with the non-alphanumeric characters stripped and the
  words joined by hyphens. In detail: every character of the slug is one of \<open>a\<close>-\<open>z\<close>,
  \<open>0\<close>-\<open>9\<close> and \<open>-\<close>; the slug without its hyphens is the lower-cased title without
  everything but \<open>a\<close>-\<open>z\<close> and \<open>0\<close>-\<open>9\<close>; for a non-empty title the slug is exactly
  the words of the lower-cased, stripped title joined by single hyphens, where the words
  are the maximal runs between white space and hyphens; and each of these words is
  non-empty and made of \<open>a\<close>-\<open>z\<close> and \<open>0\<close>-\<open>9\<close> only. This holds whatever the engine's
  \<open>toLowerCase\<close> returns.
\<close>

theorem generateSlug_lowercase_hyphenated:
  "(t = t' \<longrightarrow> generateSlug lc (JStr t) = generateSlug lc (JStr t'))
   \<and> set (generateSlug lc (JStr t)) \<subseteq> set slugAlphabet
   \<and> (t \<noteq> [] \<longrightarrow>
        filter (\<lambda>c. \<not> isHyphen c) (generateSlug lc (JStr t)) = filter isAlnum (lc t))
   \<and> (t \<noteq> [] \<longrightarrow>
        generateSlug lc (JStr t) = joinHyphens (wordsBy isSeparator (filter keepChar (lc t))))
   \<and> (\<forall>w\<in>set (wordsBy isSeparator (filter keepChar (lc t))).
         w \<noteq> [] \<and> (\<forall>c\<in>set w. isAlnum c))"
proof (intro conjI impI)
  assume "t = t'"
  then show "generateSlug lc (JStr t) = generateSlug lc (JStr t')" by simp
next
  show "set (generateSlug lc (JStr t)) \<subseteq> set slugAlphabet"
    using set_pipeline [of "lc t"] isAlnum_alphabet
    by (auto simp: generateSlug_def js_hyphen)
next
  assume "t \<noteq> []"
  let ?s = "generateSlug lc (JStr t)"
  have "set ?s \<subseteq> {c. isAlnum c \<or> c = 45}"
    using set_pipeline [of "lc t"] by (simp add: generateSlug_def js_hyphen \<open>t \<noteq> []\<close>)
  then have "filter (\<lambda>c. \<not> isHyphen c) ?s = filter isAlnum ?s"
    by (intro filter_cong) (auto simp: isHyphen_def isAlnum_def)
  also have "\<dots> = filter isAlnum (lc t)"
    using filter_pipeline [of "lc t"] by (simp add: generateSlug_def js_hyphen \<open>t \<noteq> []\<close>)
  finally show "filter (\<lambda>c. \<not> isHyphen c) ?s = filter isAlnum (lc t)" .
next
  assume "t \<noteq> []"
  then show "generateSlug lc (JStr t) = joinHyphens (wordsBy isSeparator (filter keepChar (lc t)))"
    using pipeline_words [of "filter keepChar (lc t)"]
    by (simp add: generateSlug_def js_hyphen)
next
  show "\<forall>w\<in>set (wordsBy isSeparator (filter keepChar (lc t))).
         w \<noteq> [] \<and> (\<forall>c\<in>set w. isAlnum c)"
    by (rule slug_words_alnum)
qed

theorem generateSlug_lowercase_hyphenated_witness:
  "generateSlug asciiLowerCase (JStr (js ''  Hello,   World -- 2nd  Edition! ''))
     = js ''hello-world-2nd-edition''
   \<and> set (generateSlug asciiLowerCase (JStr (js ''  Hello,   World -- 2nd  Edition! '')))
       \<subseteq> set slugAlphabet
   \<and> filter (\<lambda>c. \<not> isHyphen c)
         (generateSlug asciiLowerCase (JStr (js ''  Hello,   World -- 2nd  Edition! '')))
       = js ''helloworld2ndedition''
   \<and> wordsBy isSeparator
         (filter keepChar (asciiLowerCase (js ''  Hello,   World -- 2nd  Edition! '')))
       = [js ''hello'', js ''world'', js ''2nd'', js ''edition'']
   \<and> joinHyphens [js ''hello'', js ''world'', js ''2nd'', js ''edition'']
       = js ''hello-world-2nd-edition''"
  using generateSlug_lowercase_hyphenated
    [of "js ''  Hello,   World -- 2nd  Edition! ''" "js ''  Hello,   World -- 2nd  Edition! ''" asciiLowerCase]
  by (simp add: slug_eval words_eval)


text \<open>
  Claim C9. \<open>generateSlug\<close> is total: the model is a total function whose only recursion,
  the replacement of runs, terminates. For an argument that is not a string (missing,
  \<open>null\<close>, a number, a boolean, an array, an object) the result is the empty string, and
  for every string the slug does not begin with a hyphen, does not end with one and
  contains no two hyphens in a row.
\<close>

theorem generateSlug_total_no_stray_hyphens:
  "(\<not> isString v \<longrightarrow> generateSlug lc v = [])
   \<and> \<not> prefix (js ''-'') (generateSlug lc (JStr t))
   \<and> \<not> suffix (js ''-'') (generateSlug lc (JStr t))
   \<and> \<not> sublist (js ''--'') (generateSlug lc (JStr t))"
proof (intro conjI impI)
  assume "\<not> isString v"
  then show "generateSlug lc v = []"
    by (cases v) (simp_all add: generateSlug_def)
next
  show "\<not> prefix (js ''-'') (generateSlug lc (JStr t))"
    using stripHyphens_not_prefix by (simp add: generateSlug_def js_hyphen)
next
  show "\<not> suffix (js ''-'') (generateSlug lc (JStr t))"
    using stripHyphens_not_suffix by (simp add: generateSlug_def js_hyphen)
next
  have d: "js ''--'' = [45, 45]" by (simp add: js_def)
  have "\<not> sublist [45, 45] (stripHyphens (replaceRuns isHyphen [45] s))" for s
    using replaceRuns_no_double [of s] sublist_stripHyphens sublist_order.order.trans by blast
  then show "\<not> sublist (js ''--'') (generateSlug lc (JStr t))"
    by (simp add: generateSlug_def js_hyphen d)
qed

theorem generateSlug_total_no_stray_hyphens_witness:
  "generateSlug asciiLowerCase JNull = []
   \<and> generateSlug asciiLowerCase (JStr (js ''-- C++ / C#  --'')) = js ''c-c''
   \<and> \<not> prefix (js ''-'') (generateSlug asciiLowerCase (JStr (js ''-- C++ / C#  --'')))
   \<and> \<not> suffix (js ''-'') (generateSlug asciiLowerCase (JStr (js ''-- C++ / C#  --'')))
   \<and> \<not> sublist (js ''--'') (generateSlug asciiLowerCase (JStr (js ''-- C++ / C#  --'')))"
  using generateSlug_total_no_stray_hyphens [of JNull asciiLowerCase "js ''-- C++ / C#  --''"]
  by (simp add: slug_eval)

section \<open>Start-up and authentication\<close>

lemma js_eq_iff [simp]: "js a = js b \<longleftrightarrow> a = b"
  unfolding js_def by (simp add: inj_on_def)

lemma js_Nil [simp]: "js a = [] \<longleftrightarrow> a = []" "[] = js a \<longleftrightarrow> a = []"
  unfolding js_def by auto

text \<open>
  Claim C7. At start-up, when \<open>STRAPI_API_TOKEN\<close> is not set and it is not the case that
  both \<open>STRAPI_ADMIN_EMAIL\<close> and \<open>STRAPI_ADMIN_PASSWORD\<close> are set, the constructor calls
  \<open>process.exit(1)\<close> and the process ends there, before \<open>run\<close> and before any request;
  when an API token or both admin credentials are present, the object is constructed
  with the variables as given, no cached token, and the backend URL
  \<open>http://localhost:1337\<close> when \<open>STRAPI_URL\<close> is unset. A variable counts as present
  the way the constructor tests and prints it: a non-empty string.
\<close>

theorem constructor_validates_credentials:
  "(\<not> present (env ''STRAPI_API_TOKEN'')
      \<and> \<not> (present (env ''STRAPI_ADMIN_EMAIL'') \<and> present (env ''STRAPI_ADMIN_PASSWORD''))
      \<longrightarrow> constructor env = Inl 1 \<and> main env = Exited 1)
   \<and> (present (env ''STRAPI_API_TOKEN'')
        \<or> (present (env ''STRAPI_ADMIN_EMAIL'') \<and> present (env ''STRAPI_ADMIN_PASSWORD''))
      \<longrightarrow> (\<exists>this. constructor env = Inr this \<and> main env = Serving this
             \<and> apiToken this = env ''STRAPI_API_TOKEN''
             \<and> adminEmail this = env ''STRAPI_ADMIN_EMAIL''
             \<and> adminPassword this = env ''STRAPI_ADMIN_PASSWORD''
             \<and> jwtToken this = JNull \<and> tokenExpiry this = None
             \<and> (env ''STRAPI_URL'' = None \<longrightarrow> strapiUrl this = js ''http://localhost:1337'')
             \<and> (\<forall>u. env ''STRAPI_URL'' = Some u \<and> u \<noteq> [] \<longrightarrow> strapiUrl this = u)))"
  by (auto simp: constructor_def main_def Let_def split: option.splits)

theorem constructor_validates_credentials_witness:
  "present (envOf [(''STRAPI_API_TOKEN'', ''tok'')] ''STRAPI_API_TOKEN'')
   \<and> (\<exists>this. main (envOf [(''STRAPI_API_TOKEN'', ''tok'')]) = Serving this
          \<and> strapiUrl this = js ''http://localhost:1337'')
   \<and> \<not> present (envOf [(''STRAPI_ADMIN_EMAIL'', ''a@b.c'')] ''STRAPI_API_TOKEN'')
   \<and> \<not> present (envOf [(''STRAPI_ADMIN_EMAIL'', ''a@b.c'')] ''STRAPI_ADMIN_PASSWORD'')
   \<and> main (envOf [(''STRAPI_ADMIN_EMAIL'', ''a@b.c'')]) = Exited 1"
  using constructor_validates_credentials [of "envOf [(''STRAPI_API_TOKEN'', ''tok'')]"]
    constructor_validates_credentials [of "envOf [(''STRAPI_ADMIN_EMAIL'', ''a@b.c'')]"]
  by (auto simp: envOf_def present_def envValue_def)

text \<open>
  Claim C3. With an API token configured, \<open>authenticate\<close> returns that token, sends
  nothing and leaves the object, and so the cached token and its expiry, as they were.
  Without one, it returns the cached token and sends no login request exactly when a
  token is cached and the clock is strictly before the stored expiry; otherwise it sends
  one login request, and on a response that carries a token it returns that token and
  stores it together with the expiry \<open>now + 25 * 60 * 1000\<close>, while on a failed login it
  throws the error and leaves the cache as it was.
\<close>

theorem authenticate_token_cache:
  "(present (apiToken this) \<longrightarrow>
      authenticate E this = (Inr (envValue (apiToken this)), this, []))
   \<and> (\<not> present (apiToken this) \<longrightarrow>
        (if truthy (jwtToken this) \<and> (\<exists>e. tokenExpiry this = Some e \<and> dateNow E < e)
         then authenticate E this = (Inr (jwtToken this), this, [])
         else snd (snd (authenticate E this)) = [loginRequest this]
              \<and> (\<forall>data token.
                    axios E (loginRequest this) = Inr data \<and> loginToken data = Inr token \<longrightarrow>
                    authenticate E this =
                      (Inr token,
                       this\<lparr> jwtToken := token, tokenExpiry := Some (dateNow E + 1500000) \<rparr>,
                       [loginRequest this]))
              \<and> (\<forall>error.
                    axios E (loginRequest this) = Inl error
                    \<or> (\<exists>data. axios E (loginRequest this) = Inr data \<and> loginToken data = Inl error)
                    \<longrightarrow> authenticate E this = (Inl error, this, [loginRequest this]))))"
proof -
  have valid: "tokenValid this (dateNow E)
      \<longleftrightarrow> truthy (jwtToken this) \<and> (\<exists>e. tokenExpiry this = Some e \<and> dateNow E < e)"
    by (auto simp: tokenValid_def split: option.splits)
  show ?thesis
    unfolding valid [symmetric]
    by (auto simp: authenticate_def loginToken_def Let_def split: sum.splits)
qed

theorem authenticate_token_cache_witness:
  "\<not> present (apiToken adminServer)
   \<and> authenticate (engineWith 1000 loginOk) adminServer =
       (Inr (JStr (js ''jwt-1'')),
        adminServer\<lparr> jwtToken := JStr (js ''jwt-1''), tokenExpiry := Some 1501000 \<rparr>,
        [loginRequest adminServer])
   \<and> authenticate (engineWith 1500999 backendDown)
         (adminServer\<lparr> jwtToken := JStr (js ''jwt-1''), tokenExpiry := Some 1501000 \<rparr>) =
       (Inr (JStr (js ''jwt-1'')),
        adminServer\<lparr> jwtToken := JStr (js ''jwt-1''), tokenExpiry := Some 1501000 \<rparr>, [])
   \<and> present (apiToken tokenServer)
   \<and> authenticate (engineWith 1000 loginOk) tokenServer
       = (Inr (JStr (js ''api-token'')), tokenServer, [])"
  using authenticate_token_cache [of adminServer "engineWith 1000 loginOk"]
    authenticate_token_cache
      [of "adminServer\<lparr> jwtToken := JStr (js ''jwt-1''), tokenExpiry := Some 1501000 \<rparr>"
          "engineWith 1500999 backendDown"]
    authenticate_token_cache [of tokenServer "engineWith 1000 loginOk"]
  by (simp add: adminServer_def tokenServer_def engineWith_def loginOk_def backendDown_def loginToken_def
      present_def envValue_def bindE_def lookup_def)

section \<open>The dispatch boundary\<close>

lemma disciplined_send:
  "(\<And>d v. k d = Inr v \<Longrightarrow> \<not> isError v) \<Longrightarrow> disciplined E (send E q k)"
  by (auto simp: disciplined_def send_def split: sum.splits)

lemma disciplined_andThen:
  "(\<And>v. disciplined E (f v)) \<Longrightarrow> disciplined E (andThen m f)"
  by (cases m) (auto simp: disciplined_def andThen_def)

lemma respond_not_error: "respond d = Inr v \<Longrightarrow> \<not> isError v"
  by (auto simp: respond_def textResult_def)

lemma listResult_not_error: "listResult f sm d = Inr v \<Longrightarrow> \<not> isError v"
  by (auto simp: listResult_def bindE_def textResult_def split: if_splits sum.splits)

lemma disciplined_respond: "disciplined E (send E q respond)"
  by (rule disciplined_send) (rule respond_not_error)

lemma disciplined_list:
  "disciplined E (andThen (listArgs args) (\<lambda>(page, pageSize, summary).
       send E (listRequest this hdrs uid page pageSize) (listResult f summary)))"
  by (rule disciplined_andThen) (auto intro!: disciplined_send dest: listResult_not_error)

lemma disciplined_handlers:
  "disciplined E (createBlogPost E this hdrs args)"
  "disciplined E (listBlogPosts E this hdrs args)"
  "disciplined E (getBlogPost E this hdrs args)"
  "disciplined E (updateBlogPost E this hdrs args)"
  "disciplined E (publishBlogPost E this hdrs args)"
  "disciplined E (listAuthors E this hdrs)"
  "disciplined E (listCategories E this hdrs)"
  "disciplined E (listTags E this hdrs)"
  "disciplined E (createTutorial E this hdrs args)"
  "disciplined E (listTutorials E this hdrs args)"
  "disciplined E (getTutorial E this hdrs args)"
  "disciplined E (updateTutorial E this hdrs args)"
  "disciplined E (publishTutorial E this hdrs args)"
  "disciplined E (createEvent E this hdrs args)"
  "disciplined E (listEvents E this hdrs args)"
  "disciplined E (getEvent E this hdrs args)"
  "disciplined E (updateEvent E this hdrs args)"
  "disciplined E (publishEvent E this hdrs args)"
  unfolding createBlogPost_def listBlogPosts_def getBlogPost_def updateBlogPost_def
    publishBlogPost_def listAuthors_def listCategories_def listTags_def listAll_def
    createTutorial_def listTutorials_def getTutorial_def updateTutorial_def publishTutorial_def
    createEvent_def listEvents_def getEvent_def updateEvent_def publishEvent_def
  by (rule disciplined_list disciplined_respond disciplined_andThen)+



lemma disciplined_if:
  "disciplined E a \<Longrightarrow> disciplined E b \<Longrightarrow> disciplined E (if c then a else b)"
  by simp

lemma disciplined_dispatch: "disciplined E (dispatch E this hdrs r)"
proof -
  have unknown: "disciplined E (Inl e, [])" for e
    by (simp add: disciplined_def)
  show ?thesis
    unfolding dispatch_def Let_def
    by (intro disciplined_if disciplined_handlers unknown)
qed



lemma dispatch_unknown:
  assumes "name r \<notin> js ` set toolNames"
  shows "dispatch E this hdrs r = (Inl (Error (js ''Unknown tool: '' @ name r)), [])"
proof -
  have "name r \<noteq> js n" if "n \<in> set toolNames" for n
    using assms that by blast
  then show ?thesis
    unfolding dispatch_def Let_def by (simp add: toolNames_def)
qed

lemma callTool_cases:
  obtains (auth_failed) error this' logins where
      "authenticate E this = (Inl error, this', logins)"
      "callTool E this r =
         \<lparr> result = errorResult error, serverAfter = this', loginCalls = logins, toolCalls = [] \<rparr>"
  | (dispatched) token this' logins res sent where
      "authenticate E this = (Inr token, this', logins)"
      "dispatch E this' (authHeaders token) r = (res, sent)"
      "callTool E this r =
         \<lparr> result = (case res of Inl error \<Rightarrow> errorResult error | Inr v \<Rightarrow> v),
           serverAfter = this', loginCalls = logins, toolCalls = sent \<rparr>"
proof -
  obtain a this' logins where a: "authenticate E this = (a, this', logins)"
    by (cases "authenticate E this") auto
  show thesis
  proof (cases a)
    case (Inl error)
    with a show ?thesis
      by (intro auth_failed [of error this' logins]) (simp_all add: callTool_def callToolTry_def)
  next
    case (Inr token)
    obtain res sent where d: "dispatch E this' (authHeaders token) r = (res, sent)"
      by (cases "dispatch E this' (authHeaders token) r") auto
    with a Inr show ?thesis
      by (intro dispatched [of token this' logins res sent])
         (simp_all add: callTool_def callToolTry_def)
  qed
qed


lemma dispatch_list_tags:
  "dispatch E this hdrs \<lparr> name = js ''strapi_list_tags'', arguments = a \<rparr> = listTags E this hdrs"
  by (simp add: dispatch_def Let_def)

text \<open>
  Claim C4. The call-tool handler is the total function \<open>callTool\<close>: whatever the
  \<open>try\<close> block throws becomes the returned result, so nothing escapes. A failure of
  \<open>authenticate\<close>, a failure thrown by the dispatched handler, and in particular a
  failure of the handler's request to the backend, give the result with \<open>isError\<close> set
  whose only content item is the text \<open>Error: \<close> followed by the error's message. A tool
  name outside the eighteen cases of the \<open>switch\<close> always gives an error result, and
  after a successful authentication it is the one with message \<open>Unknown tool: \<close>
  followed by the name.
\<close>

theorem callTool_catches_every_failure:
  "result (callTool E this r) =
     (case fst (callToolTry E this r) of Inl error \<Rightarrow> errorResult error | Inr v \<Rightarrow> v)
   \<and> (\<forall>error. fst (authenticate E this) = Inl error \<longrightarrow>
         result (callTool E this r) = errorResult error)
   \<and> (\<forall>token error.
         fst (authenticate E this) = Inr token
         \<and> fst (dispatch E (fst (snd (authenticate E this))) (authHeaders token) r) = Inl error
         \<longrightarrow> result (callTool E this r) = errorResult error)
   \<and> (\<forall>q error. toolCalls (callTool E this r) = [q] \<and> axios E q = Inl error \<longrightarrow>
         result (callTool E this r) = errorResult error)
   \<and> (name r \<notin> js ` set toolNames \<longrightarrow>
         isError (result (callTool E this r))
         \<and> (\<forall>token. fst (authenticate E this) = Inr token \<longrightarrow>
               result (callTool E this r) = errorResult (Error (js ''Unknown tool: '' @ name r))))
   \<and> isError (errorResult error)
   \<and> content (errorResult error) = [PlainText (js ''Error: '' @ message error)]"
proof (cases rule: callTool_cases [of E this r])
  case (auth_failed error' this' logins)
  then show ?thesis
    by (simp add: callToolTry_def errorResult_def)
next
  case (dispatched token this' logins res sent)
  have d: "disciplined E (res, sent)"
    using disciplined_dispatch [of E this' "authHeaders token" r] dispatched(2) by simp
  have u: "name r \<notin> js ` set toolNames \<Longrightarrow> res = Inl (Error (js ''Unknown tool: '' @ name r))"
    using dispatch_unknown [of r E this' "authHeaders token"] dispatched(2) by simp
  have f: "sent = [q] \<Longrightarrow> axios E q = Inl e \<Longrightarrow> res = Inl e" for q e
    using d by (simp add: disciplined_def)
  have t: "fst (callToolTry E this r) = res"
    using dispatched by (simp add: callToolTry_def)
  show ?thesis
    unfolding t using dispatched u f
    by (auto simp: errorResult_def)
qed

theorem callTool_catches_every_failure_witness:
  "fst (authenticate (engineWith 1000 backendDown) adminServer)
     = Inl (AxiosError (js ''connect ECONNREFUSED''))
   \<and> result (callTool (engineWith 1000 backendDown) adminServer
         \<lparr> name = js ''strapi_list_tags'', arguments = JUndefined \<rparr>)
       = \<lparr> content = [PlainText (js ''Error: connect ECONNREFUSED'')], isError = True \<rparr>
   \<and> js ''strapi_delete_everything'' \<notin> js ` set toolNames
   \<and> fst (authenticate (engineWith 1000 backendDown) tokenServer) = Inr (JStr (js ''api-token''))
   \<and> result (callTool (engineWith 1000 backendDown) tokenServer
         \<lparr> name = js ''strapi_delete_everything'', arguments = JUndefined \<rparr>)
       = \<lparr> content = [PlainText (js ''Error: Unknown tool: strapi_delete_everything'')],
           isError = True \<rparr>
   \<and> toolCalls (callTool (engineWith 1000 backendDown) tokenServer
         \<lparr> name = js ''strapi_list_tags'', arguments = JUndefined \<rparr>)
       = [\<lparr> verb = GET, url = [Lit (collection tokenServer ''api::tag.tag'')], body = None,
            params = None, headers = Some tokenHeaders \<rparr>]
   \<and> result (callTool (engineWith 1000 backendDown) tokenServer
         \<lparr> name = js ''strapi_list_tags'', arguments = JUndefined \<rparr>)
       = \<lparr> content = [PlainText (js ''Error: connect ECONNREFUSED'')], isError = True \<rparr>"
proof -
  let ?E = "engineWith 1000 backendDown"
  let ?tags = "\<lparr> name = js ''strapi_list_tags'', arguments = JUndefined \<rparr>"
  let ?unknown = "\<lparr> name = js ''strapi_delete_everything'', arguments = JUndefined \<rparr>"
  have a: "fst (authenticate ?E adminServer) = Inl (AxiosError (js ''connect ECONNREFUSED''))"
    by (simp add: authenticate_def Let_def tokenValid_def engineWith_def backendDown_def
        adminServer_def present_def envValue_def)
  have b: "fst (authenticate ?E tokenServer) = Inr (JStr (js ''api-token''))"
    by (simp add: authenticate_def tokenServer_def adminServer_def present_def envValue_def)
  have u: "name ?unknown \<notin> js ` set toolNames"
    by (simp add: toolNames_def)
  have 1: "result (callTool ?E adminServer ?tags)
      = errorResult (AxiosError (js ''connect ECONNREFUSED''))"
    using callTool_catches_every_failure [of ?E adminServer ?tags] a by blast
  have 2: "result (callTool ?E tokenServer ?unknown)
      = errorResult (Error (js ''Unknown tool: '' @ name ?unknown))"
    using callTool_catches_every_failure [of ?E tokenServer ?unknown] b u by blast
  let ?q = "\<lparr> verb = GET, url = [Lit (collection tokenServer ''api::tag.tag'')], body = None,
              params = None, headers = Some tokenHeaders \<rparr>"
  have c: "toolCalls (callTool ?E tokenServer ?tags) = [?q]"
    by (simp add: callTool_def callToolTry_def authenticate_def dispatch_list_tags
        listTags_def listAll_def send_def tokenHeaders_def engineWith_def backendDown_def
        tokenServer_def adminServer_def present_def envValue_def)
  have q: "axios ?E ?q = Inl (AxiosError (js ''connect ECONNREFUSED''))"
    by (simp add: engineWith_def backendDown_def)
  have 3: "result (callTool ?E tokenServer ?tags)
      = errorResult (AxiosError (js ''connect ECONNREFUSED''))"
    using callTool_catches_every_failure [of ?E tokenServer ?tags] c q by blast
  show ?thesis
    using a b u 1 2 c 3 by (simp add: errorResult_def js_def)
qed

subsection \<open>When a handler reaches its request\<close>



































section \<open>List requests\<close>

lemma snd_send: "snd (send E q k) = [q]"
  by (simp add: send_def split: sum.splits)

lemma listArgs_object:
  "listArgs (JObj a) =
     Inr (orDefault (lookup a ''page'') (JNum 1), orDefault (lookup a ''pageSize'') (JNum 25),
          orDefault (lookup a ''summary'') (JBool True))"
  by (simp add: listArgs_def orDefault_def bindE_def readProp_def)

lemma listArgs_undefined: "listArgs JUndefined = Inr (JNum 1, JNum 25, JBool True)"
  by (simp add: listArgs_def orDefault_def bindE_def readProp_def lookup_def)

lemma list_sent:
  "snd (andThen (listArgs (JObj a)) (\<lambda>(page, pageSize, summary).
          send E (listRequest this hdrs uid page pageSize) (k summary))) =
     [\<lparr> verb = GET, url = [Lit (collection this uid)], body = None,
        params = Some [(js ''page'', orDefault (lookup a ''page'') (JNum 1)),
                       (js ''pageSize'', orDefault (lookup a ''pageSize'') (JNum 25))],
        headers = Some hdrs \<rparr>]"
  by (simp add: listArgs_object andThen_def snd_send listRequest_def)

text \<open>
  Claim C5. For the three list operations the request sent to the backend is a \<open>GET\<close>
  of the collection with the caller's headers and the two query parameters \<open>page\<close> and
  \<open>pageSize\<close> (1 and 25 when absent) and nothing else. Two argument objects that differ
  only in \<open>status\<close>, \<open>category_id\<close>, \<open>author_id\<close>, \<open>tag_id\<close>, \<open>difficulty\<close>,
  \<open>event_type\<close>, \<open>upcoming\<close>, \<open>sort\<close> and \<open>search\<close> therefore send identical requests.
\<close>

theorem list_requests_ignore_filters:
  assumes "\<forall>k. k \<notin> set filterArgs \<longrightarrow> lookup a k = lookup b k"
  shows "snd (listBlogPosts E this hdrs (JObj a)) = snd (listBlogPosts E this hdrs (JObj b))
       \<and> snd (listTutorials E this hdrs (JObj a)) = snd (listTutorials E this hdrs (JObj b))
       \<and> snd (listEvents E this hdrs (JObj a)) = snd (listEvents E this hdrs (JObj b))
       \<and> snd (listBlogPosts E this hdrs (JObj a)) =
           [\<lparr> verb = GET, url = [Lit (collection this ''api::blog-post.blog-post'')],
              body = None,
              params = Some [(js ''page'', orDefault (lookup a ''page'') (JNum 1)),
                             (js ''pageSize'', orDefault (lookup a ''pageSize'') (JNum 25))],
              headers = Some hdrs \<rparr>]
       \<and> snd (listTutorials E this hdrs (JObj a)) =
           [\<lparr> verb = GET, url = [Lit (collection this ''api::tutorial.tutorial'')],
              body = None,
              params = Some [(js ''page'', orDefault (lookup a ''page'') (JNum 1)),
                             (js ''pageSize'', orDefault (lookup a ''pageSize'') (JNum 25))],
              headers = Some hdrs \<rparr>]
       \<and> snd (listEvents E this hdrs (JObj a)) =
           [\<lparr> verb = GET, url = [Lit (collection this ''api::event.event'')],
              body = None,
              params = Some [(js ''page'', orDefault (lookup a ''page'') (JNum 1)),
                             (js ''pageSize'', orDefault (lookup a ''pageSize'') (JNum 25))],
              headers = Some hdrs \<rparr>]"
proof -
  have "''page'' \<notin> set filterArgs" and "''pageSize'' \<notin> set filterArgs"
    by (simp_all add: filterArgs_def)
  with assms have "lookup a ''page'' = lookup b ''page''"
    and "lookup a ''pageSize'' = lookup b ''pageSize''"
    by blast+
  then show ?thesis
    unfolding listBlogPosts_def listTutorials_def listEvents_def list_sent by simp
qed

lemma lookup_Cons:
  "lookup ((js k', v) # kvs) k = (if k' = k then v else lookup kvs k)"
  by (simp add: lookup_def)

lemma lookup_Nil: "lookup [] k = JUndefined"
  by (simp add: lookup_def)

theorem list_requests_ignore_filters_witness:
  "snd (listBlogPosts (engineWith 0 tagsBackend) tokenServer tokenHeaders (JObj draftsQuery))
       = snd (listBlogPosts (engineWith 0 tagsBackend) tokenServer tokenHeaders (JObj plainQuery))
   \<and> snd (listBlogPosts (engineWith 0 tagsBackend) tokenServer tokenHeaders (JObj draftsQuery))
       =
       [\<lparr> verb = GET, url = [Lit (collection tokenServer ''api::blog-post.blog-post'')],
          body = None,
          params = Some [(js ''page'', JNum 2), (js ''pageSize'', JNum 25)],
          headers = Some tokenHeaders \<rparr>]"
proof -
  have agree: "\<forall>k. k \<notin> set filterArgs \<longrightarrow> lookup draftsQuery k = lookup plainQuery k"
    by (simp add: filterArgs_def draftsQuery_def plainQuery_def lookup_Cons lookup_Nil)
  have l: "lookup draftsQuery ''page'' = JNum 2" "lookup draftsQuery ''pageSize'' = JUndefined"
    by (simp_all add: draftsQuery_def lookup_Cons lookup_Nil)
  have p: "orDefault (lookup draftsQuery ''page'') (JNum 1) = JNum 2"
    "orDefault (lookup draftsQuery ''pageSize'') (JNum 25) = JNum 25"
    by (simp_all add: l orDefault_def)
  show ?thesis
    using agree
      list_requests_ignore_filters [OF agree, of "engineWith 0 tagsBackend" tokenServer tokenHeaders]
    unfolding p by blast
qed

section \<open>Update payloads\<close>

lemma map_of_setProp:
  "map_of (setProp k v kvs) (js k2) = (if k2 = k then Some v else map_of kvs (js k2))"
  by (induction kvs) auto

lemma set_setProp: "set (setProp k v kvs) \<subseteq> insert (js k, v) (set kvs)"
  by (induction kvs) (auto split: if_splits)

lemma map_of_copyIf:
  "map_of (copyIf args k k' d) (js k2) =
     (if truthy (readProp args k) \<and> k2 = k' then Some (readProp args k) else map_of d (js k2))"
  by (simp add: copyIf_def map_of_setProp)

lemma map_of_titleAndSlug:
  "map_of (titleAndSlug E args title) (js k2) =
     (if k2 = ''slug'' \<and> truthy (readProp args ''slug'') then Some (readProp args ''slug'')
      else if k2 = ''slug'' \<and> truthy title
        then Some (JStr (generateSlug (toLowerCase E) title))
      else if k2 = ''title'' \<and> truthy title then Some title
      else None)"
  by (simp add: titleAndSlug_def Let_def map_of_copyIf map_of_setProp)

lemma passable_truthy: "truthy v \<Longrightarrow> passable (k, v)"
  by (simp add: passable_def)

lemma passable_slug: "passable (js ''slug'', JStr s)"
  by (cases "s = []") (simp_all add: passable_def)

lemma passable_setProp:
  "passable (js k, v) \<Longrightarrow> list_all passable d \<Longrightarrow> list_all passable (setProp k v d)"
  by (induction d) auto

lemma passable_copyIf:
  "list_all passable d \<Longrightarrow> list_all passable (copyIf args k k' d)"
  by (simp add: copyIf_def passable_setProp passable_truthy)

lemma passable_titleAndSlug: "list_all passable (titleAndSlug E args title)"
  by (simp add: titleAndSlug_def Let_def passable_copyIf passable_setProp passable_truthy
      passable_slug)

lemma splitWhitespace_nonempty: "splitWhitespace s \<noteq> []"
  by (subst splitWhitespace.simps) (simp add: Let_def)

lemma readingTime_pos: "0 < n \<Longrightarrow> 0 < readingTime n"
  by (simp add: readingTime_def)


lemma getProp_readProp: "getProp v k = Inr x \<Longrightarrow> readProp v k = x"
  by (simp add: readProp_def)

lemmas payload_simps = map_of_copyIf map_of_titleAndSlug map_of_setProp

lemma updateTutorialData_payload:
  assumes "updateTutorialData E args = Inr (JObj d)"
  shows "d = copyIf args ''duration'' ''duration''
              (copyIf args ''difficulty'' ''difficulty''
              (copyIf args ''description'' ''description''
              (copyIf args ''content'' ''content''
              (titleAndSlug E args (readProp args ''title'')))))"
  using assms
  by (auto simp: updateTutorialData_def bindE_def dest: getProp_readProp split: sum.splits)

lemma updateEventData_payload:
  assumes "updateEventData E args = Inr (JObj d)"
  shows "d = copyIf args ''registration_url'' ''registration_url''
              (copyIf args ''location'' ''location''
              (copyIf args ''end_date'' ''end_date''
              (copyIf args ''start_date'' ''start_date''
              (copyIf args ''description'' ''description''
              (titleAndSlug E args (readProp args ''title''))))))"
  using assms
  by (auto simp: updateEventData_def bindE_def dest: getProp_readProp split: sum.splits)

lemma updateBlogPostData_payload:
  assumes "updateBlogPostData E args = Inr (JObj d)"
  shows "\<exists>d3. d = copyIf args ''tag_ids'' ''tags''
              (copyIf args ''category_id'' ''category''
              (copyIf args ''published_date'' ''published_date''
              (copyIf args ''description'' ''excerpt'' d3)))
          \<and> (if truthy (readProp args ''content'')
              then \<exists>wordCount. contentWordCount (readProp args ''content'') = Inr wordCount
                     \<and> d3 = setProp ''reading_time'' (JNum (real (readingTime wordCount)))
                             (setProp ''content'' (readProp args ''content'')
                               (titleAndSlug E args (readProp args ''title'')))
              else d3 = titleAndSlug E args (readProp args ''title''))"
  using assms
  by (auto simp: updateBlogPostData_def bindE_def Let_def dest: getProp_readProp
      split: sum.splits if_splits)


lemma passable_all:
  "list_all passable d \<Longrightarrow> \<forall>(k', v)\<in>set d. truthy v \<or> (k' = js ''slug'' \<and> v = JStr [])"
  by (auto simp: list_all_iff passable_def)

lemma contentWordCount_pos: "contentWordCount c = Inr n \<Longrightarrow> 0 < n"
  using splitWhitespace_nonempty
  by (cases c) (auto simp: contentWordCount_def)

lemmas update_eval =
  updateBlogPostData_def updateTutorialData_def updateEventData_def titleAndSlug_def
  copyIf_def readProp_def lookup_def bindE_def Let_def engineWith_def

text \<open>
  Claim C10, as stated, fails in its consequence that no field can be cleared through an
  update: an empty \<open>tag_ids\<close> array is truthy and is sent as the new \<open>tags\<close>, and a title
  without letters or digits sends the empty string as the new slug.
\<close>

theorem update_clears_field_counterexample:
  "updateBlogPostData (engineWith 0 backendDown)
     (JObj [(js ''document_id'', JStr (js ''p1'')), (js ''tag_ids'', JArr [])])
     = Inr (JObj [(js ''tags'', JArr [])])
   \<and> updateEventData (engineWith 0 backendDown)
     (JObj [(js ''document_id'', JStr (js ''e1'')), (js ''title'', JStr (js ''???''))])
     = Inr (JObj [(js ''title'', JStr (js ''???'')), (js ''slug'', JStr [])])"
  by (simp add: update_eval slug_eval)

text \<open>
  Claim C10, amended. For each of the three update operations and each argument it
  copies: a falsy argument leaves its payload property absent (the slug apart, which may
  be generated), a truthy argument is passed unchanged, and without a truthy \<open>slug\<close>
  argument the payload has the slug \<open>generateSlug (title)\<close> exactly when the title is
  truthy. Every value of the payload is truthy, with the one exception of a generated
  slug that is empty: no property is set to \<open>0\<close>, \<open>false\<close>, \<open>null\<close> or an empty string
  through its argument, while empty arrays, being truthy, pass.
\<close>

theorem update_payload_omits_falsy:
  assumes "(table, build) \<in> set updateOperations"
    and "build E args = Inr (JObj data)"
  shows "(\<forall>(k, k')\<in>set table.
            k \<noteq> ''slug'' \<and> \<not> truthy (readProp args k) \<longrightarrow> map_of data (js k') = None)
       \<and> (\<forall>(k, k')\<in>set table.
            truthy (readProp args k) \<longrightarrow> map_of data (js k') = Some (readProp args k))
       \<and> (\<not> truthy (readProp args ''slug'') \<longrightarrow>
            map_of data (js ''slug'') =
              (if truthy (readProp args ''title'')
               then Some (JStr (generateSlug (toLowerCase E) (readProp args ''title'')))
               else None))
       \<and> (\<forall>(k', v)\<in>set data. truthy v \<or> (k' = js ''slug'' \<and> v = JStr []))"
proof -
  from assms(1) consider
      (blog) "table = blogUpdateFields" "build = updateBlogPostData"
    | (tutorial) "table = tutorialUpdateFields" "build = updateTutorialData"
    | (event) "table = eventUpdateFields" "build = updateEventData"
    by (auto simp: updateOperations_def)
  then show ?thesis
  proof cases
    case tutorial
    with assms(2) have d: "data = copyIf args ''duration'' ''duration''
              (copyIf args ''difficulty'' ''difficulty''
              (copyIf args ''description'' ''description''
              (copyIf args ''content'' ''content''
              (titleAndSlug E args (readProp args ''title'')))))"
      by (simp add: updateTutorialData_payload)
    have "list_all passable data"
      unfolding d by (intro passable_copyIf passable_titleAndSlug)
    then have p: "\<forall>(k', v)\<in>set data. truthy v \<or> (k' = js ''slug'' \<and> v = JStr [])"
      by (rule passable_all)
    show ?thesis
      using p unfolding tutorial
      by (simp add: d tutorialUpdateFields_def payload_simps)
  next
    case event
    with assms(2) have d: "data = copyIf args ''registration_url'' ''registration_url''
              (copyIf args ''location'' ''location''
              (copyIf args ''end_date'' ''end_date''
              (copyIf args ''start_date'' ''start_date''
              (copyIf args ''description'' ''description''
              (titleAndSlug E args (readProp args ''title''))))))"
      by (simp add: updateEventData_payload)
    have "list_all passable data"
      unfolding d by (intro passable_copyIf passable_titleAndSlug)
    then have p: "\<forall>(k', v)\<in>set data. truthy v \<or> (k' = js ''slug'' \<and> v = JStr [])"
      by (rule passable_all)
    show ?thesis
      using p unfolding event
      by (simp add: d eventUpdateFields_def payload_simps)
  next
    case blog
    with assms(2) obtain d3 where
      d: "data = copyIf args ''tag_ids'' ''tags''
              (copyIf args ''category_id'' ''category''
              (copyIf args ''published_date'' ''published_date''
              (copyIf args ''description'' ''excerpt'' d3)))"
      and d3: "if truthy (readProp args ''content'')
              then \<exists>wordCount. contentWordCount (readProp args ''content'') = Inr wordCount
                     \<and> d3 = setProp ''reading_time'' (JNum (real (readingTime wordCount)))
                             (setProp ''content'' (readProp args ''content'')
                               (titleAndSlug E args (readProp args ''title'')))
              else d3 = titleAndSlug E args (readProp args ''title'')"
      using updateBlogPostData_payload [of E args data] by blast
    have m: "map_of d3 (js k2) =
        (if truthy (readProp args ''content'') \<and> k2 = ''content''
         then Some (readProp args ''content'')
         else map_of (titleAndSlug E args (readProp args ''title'')) (js k2))"
      if "k2 \<noteq> ''reading_time''" for k2
      using d3 that by (auto simp: map_of_setProp split: if_splits)
    have "list_all passable d3"
    proof (cases "truthy (readProp args ''content'')")
      case True
      with d3 obtain wordCount where
        w: "contentWordCount (readProp args ''content'') = Inr wordCount"
        and e: "d3 = setProp ''reading_time'' (JNum (real (readingTime wordCount)))
                             (setProp ''content'' (readProp args ''content'')
                               (titleAndSlug E args (readProp args ''title'')))"
        by auto
      have "0 < readingTime wordCount"
        using contentWordCount_pos [OF w] by (rule readingTime_pos)
      then have "truthy (JNum (real (readingTime wordCount)))" by simp
      with True show ?thesis
        unfolding e by (intro passable_setProp passable_truthy passable_titleAndSlug)
    next
      case False
      with d3 show ?thesis by (simp add: passable_titleAndSlug)
    qed
    then have "list_all passable data"
      unfolding d by (intro passable_copyIf)
    then have p: "\<forall>(k', v)\<in>set data. truthy v \<or> (k' = js ''slug'' \<and> v = JStr [])"
      by (rule passable_all)
    show ?thesis
      using p unfolding blog
      by (simp add: d blogUpdateFields_def map_of_copyIf m map_of_titleAndSlug)
  qed
qed

theorem update_payload_omits_falsy_witness:
  "(tutorialUpdateFields, updateTutorialData) \<in> set updateOperations
   \<and> updateTutorialData (engineWith 0 backendDown) tutorialPatch =
       Inr (JObj [(js ''title'', JStr (js ''Intro to X'')),
                  (js ''slug'', JStr (js ''intro-to-x'')),
                  (js ''description'', JStr (js ''Basics''))])
   \<and> (''duration'', ''duration'') \<in> set tutorialUpdateFields
   \<and> \<not> truthy (readProp tutorialPatch ''duration'')
   \<and> truthy (readProp tutorialPatch ''title'')
   \<and> \<not> truthy (readProp tutorialPatch ''slug'')"
proof -
  have mem: "(tutorialUpdateFields, updateTutorialData) \<in> set updateOperations"
    by (simp add: updateOperations_def)
  have ev: "updateTutorialData (engineWith 0 backendDown) tutorialPatch =
       Inr (JObj [(js ''title'', JStr (js ''Intro to X'')),
                  (js ''slug'', JStr (js ''intro-to-x'')),
                  (js ''description'', JStr (js ''Basics''))])"
    by (simp add: tutorialPatch_def update_eval slug_eval)
  note update_payload_omits_falsy [OF mem ev]
  then show ?thesis
    using mem ev
    by (simp add: tutorialUpdateFields_def tutorialPatch_def readProp_def lookup_def)
qed

section \<open>Summary mode of the list operations\<close>















section \<open>Reading time and word count\<close>

lemma splitWhitespace_Nil: "splitWhitespace [] = [[]]"
  by (subst splitWhitespace.simps) simp

lemma wordsOf_Nil: "wordsOf [] = []"
  by (subst wordsOf.simps) simp

lemma lines_head:
  "concat (replicate n (js ''word'' @ [10])) = []
   \<or> \<not> isWhiteSpace (hd (concat (replicate n (js ''word'' @ [10]))))"
  by (cases n) (simp_all add: js_def isWhiteSpace_def)

lemma dropWhile_lines:
  "dropWhile isWhiteSpace (concat (replicate n (js ''word'' @ [10])))
     = concat (replicate n (js ''word'' @ [10]))"
  using lines_head [of n]
  by (cases "concat (replicate n (js ''word'' @ [10]))") auto

lemma splitWhitespace_lines:
  "length (splitWhitespace (concat (replicate n (js ''word'' @ [10])))) = n + 1"
proof (induction n)
  case 0
  show ?case by (simp add: splitWhitespace_Nil)
next
  case (Suc n)
  let ?rest = "concat (replicate n (js ''word'' @ [10]))"
  have "splitWhitespace (js ''word'' @ 10 # ?rest) = js ''word'' # splitWhitespace ?rest"
    by (subst splitWhitespace.simps) (simp add: js_def isWhiteSpace_def dropWhile_lines [unfolded js_def, simplified])
  with Suc show ?case by simp
qed


lemma wordsOf_dropWhile: "wordsOf (dropWhile isWhiteSpace s) = wordsOf s"
  by (subst wordsOf.simps, subst (2) wordsOf.simps) (simp add: dropWhile_idem)

lemma wordsOf_Cons:
  "\<not> isWhiteSpace c \<Longrightarrow>
   wordsOf (c # cs) = (c # takeWhile (\<lambda>c. \<not> isWhiteSpace c) cs)
                        # wordsOf (dropWhile (\<lambda>c. \<not> isWhiteSpace c) cs)"
  by (subst wordsOf.simps) simp

lemma splitWhitespace_count:
  "length (splitWhitespace s) =
     specWordCount s + (if s = [] \<or> isWhiteSpace (hd s) then 1 else 0)
                     + (if s \<noteq> [] \<and> isWhiteSpace (last s) then 1 else 0)"
proof (induction s rule: splitWhitespace.induct)
  case (1 s)
  let ?nw = "\<lambda>c. \<not> isWhiteSpace c"
  let ?w = "takeWhile ?nw s"
  let ?rest = "dropWhile ?nw s"
  let ?s' = "dropWhile isWhiteSpace ?rest"
  have s: "s = ?w @ ?rest" by simp
  show ?case
  proof (cases "?rest = []")
    case True
    then have all: "\<forall>x\<in>set s. \<not> isWhiteSpace x"
      by (simp add: dropWhile_eq_Nil_conv)
    have sp: "splitWhitespace s = [?w]"
      using True by (subst splitWhitespace.simps) (simp add: Let_def)
    show ?thesis
    proof (cases s)
      case Nil
      then show ?thesis by (simp add: splitWhitespace_Nil specWordCount_def wordsOf_Nil)
    next
      case (Cons c cs)
      with all have c: "\<not> isWhiteSpace c" and cs: "\<forall>x\<in>set cs. \<not> isWhiteSpace x"
        by simp_all
      from cs have d: "dropWhile ?nw cs = []" by (simp add: dropWhile_eq_Nil_conv)
      have "wordsOf s = [c # takeWhile ?nw cs]"
        unfolding Cons wordsOf_Cons [OF c] d wordsOf_Nil ..
      moreover have "\<not> isWhiteSpace (last s)"
        using all Cons last_in_set [of s] by auto
      ultimately show ?thesis
        using sp c Cons by (simp add: specWordCount_def)
    qed
  next
    case False
    then have ne: "s \<noteq> []" by auto
    have sp: "splitWhitespace s = ?w # splitWhitespace ?s'"
      by (subst splitWhitespace.simps) (simp only: Let_def False if_False)
    have IH: "length (splitWhitespace ?s') =
        specWordCount ?s' + (if ?s' = [] \<or> isWhiteSpace (hd ?s') then 1 else 0)
                          + (if ?s' \<noteq> [] \<and> isWhiteSpace (last ?s') then 1 else 0)"
      by (rule "1.IH" [OF refl refl False])
    have hdrest: "isWhiteSpace (hd ?rest)"
      using hd_dropWhile [OF False] by simp
    have words: "specWordCount s = (if ?w = [] then 0 else 1) + specWordCount ?s'"
    proof (cases "?w = []")
      case True
      then have "?rest = s"
        using takeWhile_dropWhile_id [of ?nw s] by simp
      then have "wordsOf ?s' = wordsOf s"
        by (simp add: wordsOf_dropWhile)
      with True show ?thesis by (simp add: specWordCount_def)
    next
      case w: False
      then obtain c cs where cs: "s = c # cs" and c: "\<not> isWhiteSpace c"
        by (cases s) (auto split: if_splits)
      then have "?rest = dropWhile ?nw cs" by simp
      then have "wordsOf (dropWhile ?nw cs) = wordsOf ?s'"
        by (simp add: wordsOf_dropWhile)
      with cs c w show ?thesis
        using wordsOf_Cons [OF c, of cs] by (simp add: specWordCount_def)
    qed
    have lead: "(s = [] \<or> isWhiteSpace (hd s)) \<longleftrightarrow> ?w = []"
    proof (cases s)
      case Nil
      with ne show ?thesis by simp
    next
      case (Cons c cs)
      then show ?thesis by simp
    qed
    have "last (?w @ ?rest) = last ?rest"
      using False by (rule last_appendR)
    then have lasts: "last s = last ?rest"
      by simp
    have n: "length (splitWhitespace s) = Suc (length (splitWhitespace ?s'))"
      unfolding sp by simp
    have B: "(s \<noteq> [] \<and> isWhiteSpace (last s)) \<longleftrightarrow> isWhiteSpace (last ?rest)"
      unfolding lasts using ne by blast
    show ?thesis
    proof (cases "?s' = []")
      case True
      then have "\<forall>x\<in>set ?rest. isWhiteSpace x"
        by (simp only: dropWhile_eq_Nil_conv)
      with False have t: "isWhiteSpace (last ?rest)"
        using last_in_set by blast
      have "length (splitWhitespace ?s') = 1" and "specWordCount ?s' = 0"
        unfolding True by (simp_all add: splitWhitespace_Nil specWordCount_def wordsOf_Nil)
      then show ?thesis
        unfolding n words lead B using t by (cases "?w = []") simp_all
    next
      case s': False
      then have h: "\<not> isWhiteSpace (hd ?s')"
        by (rule hd_dropWhile)
      have "last (takeWhile isWhiteSpace ?rest @ ?s') = last ?s'"
        using s' by (rule last_appendR)
      then have l: "last ?rest = last ?s'"
        by (simp only: takeWhile_dropWhile_id)
      have "length (splitWhitespace ?s') =
          specWordCount ?s' + (if isWhiteSpace (last ?rest) then 1 else 0)"
        unfolding IH l using s' h by simp
      then show ?thesis
        unfolding n words lead B by (cases "?w = []") simp_all
    qed
  qed
qed


lemma specWordCount_lines:
  "specWordCount (concat (replicate (Suc n) (js ''word'' @ [10]))) = Suc n"
proof -
  let ?s = "concat (replicate (Suc n) (js ''word'' @ [10]))"
  have ne: "?s \<noteq> []" and hd: "\<not> isWhiteSpace (hd ?s)"
    by (simp_all add: js_def isWhiteSpace_def)
  have "last ?s = 10"
    by (induction n) simp_all
  then have "isWhiteSpace (last ?s)"
    by (simp add: isWhiteSpace_def)
  with ne hd splitWhitespace_count [of ?s] splitWhitespace_lines [of "Suc n"]
  show ?thesis by simp
qed

lemma contentWordCount_twoHundredWords:
  "contentWordCount (JStr twoHundredWords) = Inr 201"
  by (simp add: contentWordCount_def twoHundredWords_def splitWhitespace_lines)

lemma twoHundredWords_truthy: "twoHundredWords \<noteq> []"
  by (simp add: twoHundredWords_def js_def)

lemma createBlogPostData_reading_time:
  assumes "getProp args ''content'' = Inr (JStr c)"
  shows "\<exists>d. createBlogPostData E args = Inr (JObj d)
           \<and> map_of d (js ''reading_time'')
               = Some (JNum (real (readingTime (length (splitWhitespace c)))))"
  using assms by (simp add: createBlogPostData_def bindE_def contentWordCount_def)

text \<open>
  Claim C2 does not hold of the code. The payload of create-blog-post and of
  update-blog-post carries \<open>reading_time = ceil (n / 200)\<close> where \<open>n\<close> is the number of
  pieces of \<open>content.split(/\s+/)\<close>; by \<open>splitWhitespace_count\<close> that is the number of
  white-space-separated words plus one when the content is empty or begins with white
  space, plus one when it ends with white space. For a content of two hundred words,
  each followed by a line feed, both handlers send the reading time 2, while the claim's
  \<open>ceil (200 / 200)\<close> is 1.
\<close>

theorem reading_time_counts_empty_pieces:
  "(\<exists>d. createBlogPostData E
           (JObj [(js ''title'', JStr (js ''Post'')), (js ''content'', JStr twoHundredWords),
                  (js ''author_id'', JNum 1)]) = Inr (JObj d)
        \<and> map_of d (js ''reading_time'') = Some (JNum 2))
   \<and> (\<exists>d. updateBlogPostData E
           (JObj [(js ''document_id'', JStr (js ''p1'')), (js ''content'', JStr twoHundredWords)])
           = Inr (JObj d)
        \<and> map_of d (js ''reading_time'') = Some (JNum 2))
   \<and> specWordCount twoHundredWords = 200
   \<and> readingTime (specWordCount twoHundredWords) = 1"
proof (intro conjI)
  have rt: "readingTime 201 = 2"
    by (simp add: readingTime_def)
  show "\<exists>d. createBlogPostData E
           (JObj [(js ''title'', JStr (js ''Post'')), (js ''content'', JStr twoHundredWords),
                  (js ''author_id'', JNum 1)]) = Inr (JObj d)
        \<and> map_of d (js ''reading_time'') = Some (JNum 2)"
    by (simp add: createBlogPostData_def bindE_def lookup_def
        contentWordCount_twoHundredWords rt)
  show "\<exists>d. updateBlogPostData E
           (JObj [(js ''document_id'', JStr (js ''p1'')), (js ''content'', JStr twoHundredWords)])
           = Inr (JObj d)
        \<and> map_of d (js ''reading_time'') = Some (JNum 2)"
    by (simp add: updateBlogPostData_def bindE_def lookup_def readProp_def Let_def
        titleAndSlug_def copyIf_def twoHundredWords_truthy
        contentWordCount_twoHundredWords rt)
  have w: "specWordCount twoHundredWords = 200"
    using specWordCount_lines [of 199] by (simp add: twoHundredWords_def)
  then show "specWordCount twoHundredWords = 200" .
  from w show "readingTime (specWordCount twoHundredWords) = 1"
    by (simp add: readingTime_def)
qed

end
